theory Spec2Isabelle
  imports Complex_Main "HOL-Library.List_Lexorder"
begin

section \<open>Python values\<close>

text \<open>
  A Python \<^verbatim>\<open>str\<close> is a sequence of Unicode code points, so text is a list of
  natural numbers, one per code point. \<open>ustr\<close> embeds an ASCII literal; the Cyrillic
  words of the source are written out as code points.
\<close>

type_synonym pystr = "nat list"

definition ustr :: "string \<Rightarrow> pystr" where
  "ustr s = map of_char s"

text \<open>
  A Python \<^verbatim>\<open>float\<close> is one of the three special values or a finite number.
  \<open>Finite r\<close> stands for the binary64 number nearest to \<open>r\<close>, where \<open>r\<close> is the
  decimal number the float was read from and lies in the range of the finite floats
  (see \<open>to_binary64\<close>); the rounding inside that range is not computed. No function
  of the program computes with floats.
\<close>

datatype pyfloat = Finite rat | PosInf | NegInf | NaN

text \<open>
  The values the program handles: what \<^verbatim>\<open>json.loads\<close> returns, what the catalog
  \<^verbatim>\<open>COMMANDS\<close> is written with, and what the builders produce. A \<^verbatim>\<open>dict\<close> keeps
  insertion order, so it is an association list.
\<close>

datatype pyval =
    PNone
  | PBool bool
  | PInt int
  | PFloat pyfloat
  | PStr pystr
  | PList "pyval list"
  | PDict "(pystr \<times> pyval) list"

datatype exn =
    EOFError
  | ValueError
  | JSONDecodeError
  | TypeError
  | AttributeError
  | KeyError
  | SystemExit nat

text \<open>Truth value of an object, as \<^verbatim>\<open>if x:\<close> and \<^verbatim>\<open>not x\<close> test it.\<close>

fun truthy :: "pyval \<Rightarrow> bool" where
  "truthy PNone = False"
| "truthy (PBool b) = b"
| "truthy (PInt n) = (n \<noteq> 0)"
| "truthy (PFloat f) = (f \<noteq> Finite 0)"
| "truthy (PStr s) = (s \<noteq> [])"
| "truthy (PList xs) = (xs \<noteq> [])"
| "truthy (PDict d) = (d \<noteq> [])"

text \<open>\<^verbatim>\<open>d.get(k, default)\<close> and \<^verbatim>\<open>d.get(k)\<close>, whose default is \<^verbatim>\<open>None\<close>.\<close>

definition dict_get_or :: "(pystr \<times> pyval) list \<Rightarrow> pystr \<Rightarrow> pyval \<Rightarrow> pyval" where
  "dict_get_or d k dflt = (case map_of d k of None \<Rightarrow> dflt | Some v \<Rightarrow> v)"

definition dict_get :: "(pystr \<times> pyval) list \<Rightarrow> pystr \<Rightarrow> pyval" where
  "dict_get d k = dict_get_or d k PNone"

text \<open>\<^verbatim>\<open>d[k] = v\<close>: an existing key keeps its position, a new key is appended.\<close>

fun dict_set :: "(pystr \<times> pyval) list \<Rightarrow> pystr \<Rightarrow> pyval \<Rightarrow> (pystr \<times> pyval) list" where
  "dict_set [] k v = [(k, v)]"
| "dict_set ((k', v') # d) k v = (if k' = k then (k, v) # d else (k', v') # dict_set d k v)"

text \<open>
  Iterating an object: a list gives its elements, a dict its keys, a string its
  characters; anything else raises \<^verbatim>\<open>TypeError\<close>.
\<close>

fun py_iter :: "pyval \<Rightarrow> exn + pyval list" where
  "py_iter (PList xs) = Inr xs"
| "py_iter (PDict d) = Inr (map (\<lambda>kv. PStr (fst kv)) d)"
| "py_iter (PStr s) = Inr (map (\<lambda>c. PStr [c]) s)"
| "py_iter _ = Inl TypeError"

section \<open>String methods and numeric parsing\<close>

text \<open>\<^verbatim>\<open>sep.join(xs)\<close>: every item must be a string.\<close>

fun join_strs :: "pystr \<Rightarrow> pyval list \<Rightarrow> exn + pystr" where
  "join_strs sep [] = Inr []"
| "join_strs sep [PStr s] = Inr s"
| "join_strs sep (PStr s # x # xs) =
     (case join_strs sep (x # xs) of Inl e \<Rightarrow> Inl e | Inr r \<Rightarrow> Inr (s @ sep @ r))"
| "join_strs sep _ = Inl TypeError"

definition str_join :: "pystr \<Rightarrow> pyval \<Rightarrow> exn + pystr" where
  "str_join sep v = (case py_iter v of Inl e \<Rightarrow> Inl e | Inr xs \<Rightarrow> join_strs sep xs)"

text \<open>
  \<^verbatim>\<open>str.isspace\<close> for one code point: the characters of Unicode with the White_Space
  property or bidirectional class WS, B or S.
\<close>

definition isspace :: "nat \<Rightarrow> bool" where
  "isspace c \<longleftrightarrow>
     (9 \<le> c \<and> c \<le> 13) \<or> (28 \<le> c \<and> c \<le> 32) \<or> c = 133 \<or> c = 160 \<or> c = 5760 \<or>
     (8192 \<le> c \<and> c \<le> 8202) \<or> c = 8232 \<or> c = 8233 \<or> c = 8239 \<or> c = 8287 \<or> c = 12288"

definition strip :: "pystr \<Rightarrow> pystr" where
  "strip s = rev (dropWhile isspace (rev (dropWhile isspace s)))"

text \<open>
  \<^verbatim>\<open>str.lower\<close>, with the case table of the Basic Latin, Latin-1 and basic Cyrillic
  blocks; code points of other blocks are left as they are.
\<close>

definition lower_cp :: "nat \<Rightarrow> nat" where
  "lower_cp c =
     (if 65 \<le> c \<and> c \<le> 90 then c + 32
      else if 192 \<le> c \<and> c \<le> 222 \<and> c \<noteq> 215 then c + 32
      else if 1024 \<le> c \<and> c \<le> 1039 then c + 80
      else if 1040 \<le> c \<and> c \<le> 1071 then c + 32
      else c)"

definition lower :: "pystr \<Rightarrow> pystr" where
  "lower s = map lower_cp s"

definition is_digit :: "nat \<Rightarrow> bool" where
  "is_digit c \<longleftrightarrow> 48 \<le> c \<and> c \<le> 57"

text \<open>
  The digit part of a numeric literal: ASCII digits, with single underscores allowed
  between two digits.
\<close>

fun digitpart :: "pystr \<Rightarrow> bool" where
  "digitpart [] = False"
| "digitpart [c] = is_digit c"
| "digitpart (c # d # cs) =
     (if is_digit c then (if d = 95 then digitpart cs else digitpart (d # cs)) else False)"

definition digits_value :: "pystr \<Rightarrow> nat" where
  "digits_value s = foldl (\<lambda>a c. if c = 95 then a else 10 * a + (c - 48)) 0 s"

text \<open>An optional sign in front of the rest of a literal.\<close>

fun split_sign :: "pystr \<Rightarrow> bool \<times> pystr" where
  "split_sign [] = (False, [])"
| "split_sign (c # cs) =
     (if c = 45 then (True, cs) else if c = 43 then (False, cs) else (False, c # cs))"

text \<open>
  The decimal digits beyond ASCII (Unicode 14, category Nd) come in runs of ten, zero
  to nine; these are the code points of the zeros.
\<close>

definition decimal_zeros :: "nat list" where
  "decimal_zeros =
     [1632, 1776, 1984, 2406, 2534, 2662, 2790, 2918, 3046, 3174,
      3302, 3430, 3558, 3664, 3792, 3872, 4160, 4240, 6112, 6160,
      6470, 6608, 6784, 6800, 6992, 7088, 7232, 7248, 42528, 43216,
      43264, 43472, 43504, 43600, 44016, 65296, 66720, 68912, 69734, 69872,
      69942, 70096, 70384, 70736, 70864, 71248, 71360, 71472, 71904, 72016,
      72784, 73040, 73120, 92768, 92864, 93008, 120782, 120792, 120802, 120812,
      120822, 123200, 123632, 125264, 130032]"

definition decimal_digit :: "nat \<Rightarrow> nat option" where
  "decimal_digit c =
     (case find (\<lambda>z. z \<le> c \<and> c \<le> z + 9) (48 # decimal_zeros) of
        None \<Rightarrow> None
      | Some z \<Rightarrow> Some (c - z))"

text \<open>
  What \<^verbatim>\<open>int\<close> and \<^verbatim>\<open>float\<close> do to a string before they read it: a character
  beyond ASCII becomes a space when it is whitespace, the ASCII digit of its value
  when it is a decimal digit, and a question mark otherwise, which no literal has.
\<close>

definition ascii_of :: "nat \<Rightarrow> nat" where
  "ascii_of c =
     (if c < 127 then c
      else if isspace c then 32
      else (case decimal_digit c of Some d \<Rightarrow> 48 + d | None \<Rightarrow> 63))"

definition to_ascii :: "pystr \<Rightarrow> pystr" where
  "to_ascii s = map ascii_of s"

text \<open>The whitespace that the two parsers skip at both ends of the ASCII text.\<close>

definition c_isspace :: "nat \<Rightarrow> bool" where
  "c_isspace c \<longleftrightarrow> c = 32 \<or> (9 \<le> c \<and> c \<le> 13)"

definition c_strip :: "pystr \<Rightarrow> pystr" where
  "c_strip s = rev (dropWhile c_isspace (rev (dropWhile c_isspace s)))"

definition count_digits :: "pystr \<Rightarrow> nat" where
  "count_digits s = length (filter is_digit s)"

text \<open>
  \<^verbatim>\<open>int(raw)\<close> on a string, base 10: surrounding whitespace is ignored, then an
  optional sign and a digit part of at most 4300 digits (the default limit of the
  interpreter). \<open>None\<close> stands for the \<^verbatim>\<open>ValueError\<close>.
\<close>

definition py_int :: "pystr \<Rightarrow> int option" where
  "py_int raw =
     (let (neg, body) = split_sign (c_strip (to_ascii raw)) in
      if digitpart body \<and> count_digits body \<le> 4300
      then Some (if neg then - int (digits_value body) else int (digits_value body))
      else None)"

text \<open>
  The range of binary64, with rounding to nearest: from \<open>2 ^ 1024 - 2 ^ 970\<close> on, a
  number becomes an infinity, and up to \<open>2 ^ - 1075\<close> it becomes zero.
\<close>

definition to_binary64 :: "rat \<Rightarrow> pyfloat" where
  "to_binary64 r =
     (if 2 ^ 1024 - 2 ^ 970 \<le> \<bar>r\<bar> then (if r < 0 then NegInf else PosInf)
      else if \<bar>r\<bar> \<le> 1 / 2 ^ 1075 then Finite 0
      else Finite r)"

lemma to_binary64_ordinary:
  "1 / 1000000 \<le> \<bar>r\<bar> \<Longrightarrow> \<bar>r\<bar> \<le> 1000000 \<Longrightarrow> to_binary64 r = Finite r"
proof -
  assume lo: "1 / 1000000 \<le> \<bar>r\<bar>" and hi: "\<bar>r\<bar> \<le> 1000000"
  have "(2::rat) ^ 1024 - 2 ^ 970 = 2 ^ 970 * (2 ^ 54 - 1)"
    by (simp add: algebra_simps flip: power_add)
  moreover have "(2::rat) ^ 20 \<le> 2 ^ 970"
    by (rule power_increasing) simp_all
  moreover have "(1::rat) \<le> 2 ^ 54 - 1"
    by simp
  ultimately have "(2::rat) ^ 20 * 1 \<le> 2 ^ 1024 - 2 ^ 970"
    by (simp only: mult_mono zero_le_power zero_le_numeral zero_le_one)
  then have big: "\<not> 2 ^ 1024 - 2 ^ 970 \<le> \<bar>r\<bar>"
    using hi by simp
  have "(2::rat) ^ 20 \<le> 2 ^ 1075"
    by (rule power_increasing) simp_all
  then have "1 / (2::rat) ^ 1075 \<le> 1 / 2 ^ 20"
    by (simp add: frac_le)
  then have small: "\<not> \<bar>r\<bar> \<le> 1 / 2 ^ 1075"
    using lo by simp
  from big small show ?thesis
    by (simp add: to_binary64_def)
qed

text \<open>
  \<^verbatim>\<open>float(raw)\<close> on a string: surrounding whitespace is ignored, then an optional sign
  and either \<^verbatim>\<open>inf\<close>, \<^verbatim>\<open>infinity\<close>, \<^verbatim>\<open>nan\<close> in any case, or a decimal literal with
  an optional fraction and exponent.
\<close>

definition scale10 :: "rat \<Rightarrow> int \<Rightarrow> rat" where
  "scale10 r e = (if 0 \<le> e then r * 10 ^ nat e else r / 10 ^ nat (- e))"

definition parse_exponent :: "pystr \<Rightarrow> int option" where
  "parse_exponent s =
     (let (neg, body) = split_sign s in
      if digitpart body
      then Some (if neg then - int (digits_value body) else int (digits_value body))
      else None)"

definition parse_mantissa :: "pystr \<Rightarrow> rat option" where
  "parse_mantissa m =
     (let ip = takeWhile (\<lambda>c. c \<noteq> 46) m; rest = dropWhile (\<lambda>c. c \<noteq> 46) m in
      if rest = [] then
        (if digitpart ip then Some (of_nat (digits_value ip)) else None)
      else
        (let fp = tl rest in
         if (ip = [] \<or> digitpart ip) \<and> (fp = [] \<or> digitpart fp) \<and> \<not> (ip = [] \<and> fp = [])
         then Some (scale10 (of_nat (digits_value (ip @ fp))) (- int (count_digits fp)))
         else None))"

definition parse_decimal :: "pystr \<Rightarrow> rat option" where
  "parse_decimal s =
     (let m = takeWhile (\<lambda>c. c \<noteq> 101 \<and> c \<noteq> 69) s;
          rest = dropWhile (\<lambda>c. c \<noteq> 101 \<and> c \<noteq> 69) s in
      case parse_mantissa m of
        None \<Rightarrow> None
      | Some r \<Rightarrow>
          if rest = [] then Some r
          else (case parse_exponent (tl rest) of
                  None \<Rightarrow> None
                | Some e \<Rightarrow> Some (scale10 r e)))"

definition py_float :: "pystr \<Rightarrow> pyfloat option" where
  "py_float raw =
     (let (neg, body) = split_sign (c_strip (to_ascii raw)) in
      if lower body = ustr ''inf'' \<or> lower body = ustr ''infinity''
      then Some (if neg then NegInf else PosInf)
      else if lower body = ustr ''nan'' then Some NaN
      else (case parse_decimal body of
              None \<Rightarrow> None
            | Some r \<Rightarrow> Some (to_binary64 (if neg then - r else r))))"

section \<open>The console\<close>

text \<open>
  The program talks to the operator through \<^verbatim>\<open>input\<close> and \<^verbatim>\<open>print\<close> only. The
  console is the list of lines still to be read and the list of messages written so
  far. A message is recorded by the statement that writes it, with the values that
  are formatted into it.
\<close>

datatype event =
    ArrayHeader pyval
  | ElementPrompt
  | ValuePrompt pyval
  | EnumPrompt pystr
  | OptionalPrompt pyval
  | RawJsonOrEmptyPrompt
  | FillFieldsNotice
  | RawJsonPrompt
  | MenuHeader
  | MenuItem nat pystr pyval
  | MenuPrompt
  | NotANumberNotice
  | WrongNumberNotice
  | RequestNotice pystr pystr pyval
  | ResponseHeader
  | ResponseJson pyval
  | ResponseText pystr
  | RequestFailedNotice
  | Banner
  | ClientIdPrompt
  | ApiKeyPrompt
  | CredentialsRequiredNotice
  | CheckingKeysNotice
  | KeyRejectedNotice
  | KeyConfirmedNotice
  | NoCommandsNotice
  | GoodbyeNotice

record world =
  stdin :: "pystr list"
  stdout :: "event list"

definition print :: "event \<Rightarrow> world \<Rightarrow> world" where
  "print e w = w\<lparr>stdout := stdout w @ [e]\<rparr>"

text \<open>
  \<^verbatim>\<open>input(prompt)\<close> writes the prompt and reads one line, without its newline; at
  the end of the input it raises \<^verbatim>\<open>EOFError\<close>.
\<close>

definition input :: "event \<Rightarrow> world \<Rightarrow> (exn + pystr) \<times> world" where
  "input p w =
     (case stdin w of
        [] \<Rightarrow> (Inl EOFError, print p w)
      | l # ls \<Rightarrow> (Inr l, (print p w)\<lparr>stdin := ls\<rparr>))"

section \<open>The payload builder\<close>

text \<open>The words that \<^verbatim>\<open>convert_primitive\<close> reads as true; the last one is the Russian for yes.\<close>

definition truthy_tokens :: "pystr list" where
  "truthy_tokens = [ustr ''true'', ustr ''1'', ustr ''yes'', ustr ''y'', [1076, 1072]]"

definition convert_primitive :: "pystr \<Rightarrow> pyval \<Rightarrow> world \<Rightarrow> (exn + pyval) \<times> world" where
  "convert_primitive raw schema w =
     (case schema of
        PDict d \<Rightarrow>
          if raw = [] \<and> dict_get d (ustr ''default'') \<noteq> PNone
          then (Inr (dict_get d (ustr ''default'')), w)
          else if truthy (dict_get d (ustr ''enum'')) then
            (case str_join (ustr '', '') (dict_get d (ustr ''enum'')) of
               Inl e \<Rightarrow> (Inl e, w)
             | Inr options \<Rightarrow>
                 if raw = [] then
                   (case input (EnumPrompt options) w of
                      (Inl e, w') \<Rightarrow> (Inl e, w')
                    | (Inr line, w') \<Rightarrow> (Inr (PStr (strip line)), w'))
                 else (Inr (PStr raw), w))
          else
            (let schema_type = dict_get d (ustr ''type'') in
             if schema_type = PStr (ustr ''integer'') then
               (case py_int raw of
                  None \<Rightarrow> (Inl ValueError, w)
                | Some n \<Rightarrow> (Inr (PInt n), w))
             else if schema_type = PStr (ustr ''number'') then
               (case py_float raw of
                  None \<Rightarrow> (Inl ValueError, w)
                | Some f \<Rightarrow> (Inr (PFloat f), w))
             else if schema_type = PStr (ustr ''boolean'') then
               (Inr (PBool (lower raw \<in> set truthy_tokens)), w)
             else (Inr (PStr raw), w))
      | _ \<Rightarrow> (Inl AttributeError, w))"

lemma input_stdin: "input p w = (r, w') \<Longrightarrow> length (stdin w') \<le> length (stdin w)"
  by (auto simp: input_def print_def split: list.splits)

lemma input_consumes: "input p w = (Inr l, w') \<Longrightarrow> length (stdin w') < length (stdin w)"
  by (auto simp: input_def print_def split: list.splits)

lemma convert_primitive_stdin:
  "convert_primitive raw schema w = (r, w') \<Longrightarrow> length (stdin w') \<le> length (stdin w)"
  by (auto simp: convert_primitive_def Let_def
        split: pyval.splits if_splits sum.splits option.splits prod.splits
        dest: input_stdin)

text \<open>
  The \<^verbatim>\<open>while True\<close> loop of \<^verbatim>\<open>prompt_for_value\<close>, with the list \<^verbatim>\<open>values\<close> built
  so far. Each round reads a line, so the loop ends at the latest when the input does.
\<close>

function array_loop :: "pyval \<Rightarrow> pyval list \<Rightarrow> world \<Rightarrow> (exn + pyval list) \<times> world" where
  "array_loop item_schema values w =
     (case input ElementPrompt w of
        (Inl e, w') \<Rightarrow> (Inl e, w')
      | (Inr line, w') \<Rightarrow>
          if strip line = [] then (Inr values, w')
          else (case convert_primitive (strip line) item_schema w' of
                  (Inl e, w'') \<Rightarrow> (Inl e, w'')
                | (Inr v, w'') \<Rightarrow> array_loop item_schema (values @ [v]) w''))"
  by pat_completeness auto
termination
proof (relation "measure (\<lambda>(item_schema, values, w). length (stdin w))")
  show "wf (measure (\<lambda>(item_schema, values, w). length (stdin w)))"
    by simp
next
  fix item_schema :: pyval and vs :: "pyval list" and w x1 w' line x1a w'' v
  assume a: "(x1, w') = input ElementPrompt w" "x1 = Inr line"
    and b: "(x1a, w'') = convert_primitive (strip line) item_schema w'"
  from a have "length (stdin w') < length (stdin w)"
    using input_consumes [of ElementPrompt w line w'] by simp
  moreover from b have "length (stdin w'') \<le> length (stdin w')"
    using convert_primitive_stdin [of "strip line" item_schema w' x1a w''] by simp
  ultimately show "((item_schema, vs @ [v], w''), (item_schema, vs, w))
      \<in> measure (\<lambda>(item_schema, values, w). length (stdin w))"
    by simp
qed

declare array_loop.simps [simp del]

text \<open>The answers that \<^verbatim>\<open>prompt_for_object\<close> reads as yes; the last two are Russian.\<close>

definition affirmative :: "pystr list" where
  "affirmative = [ustr ''y'', ustr ''yes'', [1076], [1076, 1072]]"

text \<open>
  \<^verbatim>\<open>set(xs)\<close> iterates its argument and hashes every item; lists and dicts are not
  hashable. The set is kept as the list of its items: the program only tests
  membership in it.
\<close>

fun hashable :: "pyval \<Rightarrow> bool" where
  "hashable (PList xs) = False"
| "hashable (PDict d) = False"
| "hashable _ = True"

definition py_set :: "pyval \<Rightarrow> exn + pyval list" where
  "py_set v =
     (case py_iter v of
        Inl e \<Rightarrow> Inl e
      | Inr xs \<Rightarrow> if list_all hashable xs then Inr xs else Inl TypeError)"

text \<open>
  The question put before an optional property (lines 116 to 119 of the source): the
  result says whether the property is to be filled.
\<close>

definition fill_choice :: "bool \<Rightarrow> pyval \<Rightarrow> world \<Rightarrow> (exn + bool) \<times> world" where
  "fill_choice is_required title w =
     (if \<not> is_required then
        (case input (OptionalPrompt title) w of
           (Inl e, w') \<Rightarrow> (Inl e, w')
         | (Inr line, w') \<Rightarrow> (Inr (lower (strip line) \<in> set affirmative), w'))
      else (Inr True, w))"

lemma size_map_of: "map_of d k = Some v \<Longrightarrow> size v < size (PDict d)"
  by (induction d) (auto split: if_splits)

lemma size_dict_get_or: "size (dict_get_or d k (PDict [])) \<le> size (PDict d)"
  using size_map_of [of d k] by (auto simp: dict_get_or_def split: option.splits)

text \<open>
  \<^verbatim>\<open>prompt_for_value\<close> and \<^verbatim>\<open>prompt_for_object\<close> call each other; \<open>object_loop\<close>
  is the \<^verbatim>\<open>for\<close> loop of \<^verbatim>\<open>prompt_for_object\<close> over the remaining items of
  \<^verbatim>\<open>properties\<close>, with the dict \<^verbatim>\<open>result\<close> built so far.
\<close>

function prompt_for_value :: "pyval \<Rightarrow> pyval \<Rightarrow> world \<Rightarrow> (exn + pyval) \<times> world"
  and prompt_for_object :: "pyval \<Rightarrow> world \<Rightarrow> (exn + pyval) \<times> world"
  and object_loop :: "pyval list \<Rightarrow> (pystr \<times> pyval) list \<Rightarrow> (pystr \<times> pyval) list \<Rightarrow> world
        \<Rightarrow> (exn + pyval) \<times> world"
where
  "prompt_for_value name schema w =
     (case schema of
        PDict d \<Rightarrow>
          if dict_get d (ustr ''type'') = PStr (ustr ''object'') then prompt_for_object schema w
          else if dict_get d (ustr ''type'') = PStr (ustr ''array'') then
            (case array_loop (dict_get_or d (ustr ''items'') (PDict [])) [] (print (ArrayHeader name) w) of
               (Inl e, w') \<Rightarrow> (Inl e, w')
             | (Inr values, w') \<Rightarrow> (Inr (PList values), w'))
          else
            (case input (ValuePrompt name) w of
               (Inl e, w') \<Rightarrow> (Inl e, w')
             | (Inr line, w') \<Rightarrow> convert_primitive (strip line) schema w')
      | _ \<Rightarrow> (Inl AttributeError, w))"
| "prompt_for_object schema w =
     (case schema of
        PDict d \<Rightarrow>
          (case py_set (dict_get_or d (ustr ''required'') (PList [])) of
             Inl e \<Rightarrow> (Inl e, w)
           | Inr required \<Rightarrow>
               (case dict_get_or d (ustr ''properties'') (PDict []) of
                  PDict properties \<Rightarrow> object_loop required properties [] w
                | _ \<Rightarrow> (Inl AttributeError, w)))
      | _ \<Rightarrow> (Inl AttributeError, w))"
| "object_loop required [] result w = (Inr (PDict result), w)"
| "object_loop required ((prop, prop_schema) # rest) result w =
     (case prop_schema of
        PDict ps \<Rightarrow>
          (let is_required = (PStr prop \<in> set required);
               title = (if truthy (dict_get ps (ustr ''description''))
                        then dict_get ps (ustr ''description'') else PStr prop) in
           case fill_choice is_required title w of
             (Inl e, w') \<Rightarrow> (Inl e, w')
           | (Inr False, w') \<Rightarrow> object_loop required rest result w'
           | (Inr True, w') \<Rightarrow>
               (case prompt_for_value title prop_schema w' of
                  (Inl e, w'') \<Rightarrow> (Inl e, w'')
                | (Inr v, w'') \<Rightarrow> object_loop required rest (dict_set result prop v) w''))
      | _ \<Rightarrow> (Inl AttributeError, w))"
  by pat_completeness auto
termination
  apply (relation "measure (\<lambda>x. case x of
            Inl (name, schema, w) \<Rightarrow> 3 * size schema + 2
          | Inr (Inl (schema, w)) \<Rightarrow> 3 * size schema + 1
          | Inr (Inr (required, props, result, w)) \<Rightarrow> 3 * size (PDict props))")
  apply simp
  apply simp
  subgoal for schema w d required x
    using size_dict_get_or [of d "ustr ''properties''"] by simp
  apply simp
  apply simp
  apply simp
  done

declare prompt_for_value.simps [simp del]
declare prompt_for_object.simps [simp del]

section \<open>Reading JSON\<close>

text \<open>
  \<^verbatim>\<open>json.loads\<close> of the standard library, as its scanner reads a document: a value,
  with whitespace around it and nothing after it. Every way the text can be wrong
  raises \<^verbatim>\<open>JSONDecodeError\<close>; an integer of more than 4300 digits raises the
  \<^verbatim>\<open>ValueError\<close> of \<^verbatim>\<open>int\<close>.
\<close>

definition json_ws :: "nat \<Rightarrow> bool" where
  "json_ws c \<longleftrightarrow> c = 32 \<or> c = 9 \<or> c = 10 \<or> c = 13"

definition skip_ws :: "pystr \<Rightarrow> pystr" where
  "skip_ws s = dropWhile json_ws s"

definition hex_val :: "nat \<Rightarrow> nat option" where
  "hex_val c =
     (if 48 \<le> c \<and> c \<le> 57 then Some (c - 48)
      else if 97 \<le> c \<and> c \<le> 102 then Some (c - 87)
      else if 65 \<le> c \<and> c \<le> 70 then Some (c - 55)
      else None)"

definition hex4 :: "nat \<Rightarrow> nat \<Rightarrow> nat \<Rightarrow> nat \<Rightarrow> nat option" where
  "hex4 a b c d =
     (case (hex_val a, hex_val b, hex_val c, hex_val d) of
        (Some x, Some y, Some z, Some u) \<Rightarrow> Some (4096 * x + 256 * y + 16 * z + u)
      | _ \<Rightarrow> None)"

definition unescape :: "nat \<Rightarrow> nat option" where
  "unescape e =
     (if e = 34 \<or> e = 92 \<or> e = 47 then Some e
      else if e = 98 then Some 8
      else if e = 102 then Some 12
      else if e = 110 then Some 10
      else if e = 114 then Some 13
      else if e = 116 then Some 9
      else None)"

text \<open>
  A \<^verbatim>\<open>\u\<close> escape, after its two first characters: four hexadecimal digits. A
  high surrogate followed by the escape of a low surrogate is one character.
\<close>

definition scan_unicode_escape :: "pystr \<Rightarrow> (nat \<times> pystr) option" where
  "scan_unicode_escape s =
     (case s of
        h1 # h2 # h3 # h4 # r \<Rightarrow>
          (case hex4 h1 h2 h3 h4 of
             None \<Rightarrow> None
           | Some uni \<Rightarrow>
               (case r of
                  b # u # l1 # l2 # l3 # l4 # r' \<Rightarrow>
                    (case (if 55296 \<le> uni \<and> uni \<le> 56319 \<and> b = 92 \<and> u = 117
                           then hex4 l1 l2 l3 l4 else None) of
                       Some uni2 \<Rightarrow>
                         if 56320 \<le> uni2 \<and> uni2 \<le> 57343
                         then Some (65536 + 1024 * (uni - 55296) + (uni2 - 56320), r')
                         else Some (uni, r)
                     | None \<Rightarrow> Some (uni, r))
                | _ \<Rightarrow> Some (uni, r)))
      | _ \<Rightarrow> None)"

text \<open>An escape, after its backslash: the character it stands for and the text after it.\<close>

definition scan_escape :: "pystr \<Rightarrow> (nat \<times> pystr) option" where
  "scan_escape s =
     (case s of
        [] \<Rightarrow> None
      | e # r \<Rightarrow>
          if e = 117 then scan_unicode_escape r
          else (case unescape e of None \<Rightarrow> None | Some ch \<Rightarrow> Some (ch, r)))"

lemma scan_unicode_escape_shorter:
  "scan_unicode_escape s = Some (ch, r) \<Longrightarrow> length r < length s"
  by (auto simp: scan_unicode_escape_def split: list.splits option.splits if_splits)

lemma scan_escape_shorter: "scan_escape s = Some (ch, r) \<Longrightarrow> length r < length s"
  by (auto simp: scan_escape_def split: list.splits option.splits if_splits
        dest: scan_unicode_escape_shorter)

text \<open>
  The body of a string literal, after its opening quote: the decoded string and the
  text after the closing quote. A control character inside the literal is an error.
\<close>

function scanstring :: "pystr \<Rightarrow> (pystr \<times> pystr) option" where
  "scanstring [] = None"
| "scanstring (c # cs) =
     (if c = 34 then Some ([], cs)
      else if c = 92 then
        (case scan_escape cs of
           None \<Rightarrow> None
         | Some (ch, r) \<Rightarrow>
             (case scanstring r of
                None \<Rightarrow> None
              | Some (str, rest) \<Rightarrow> Some (ch # str, rest)))
      else if c < 32 then None
      else
        (case scanstring cs of
           None \<Rightarrow> None
         | Some (str, rest) \<Rightarrow> Some (c # str, rest)))"
  by pat_completeness auto
termination
proof (relation "measure length")
  show "wf (measure length)" by simp
next
  fix c :: nat and cs x2 ch r
  assume "scan_escape cs = Some x2" and "(ch, r) = x2"
  then have "length r < length cs"
    using scan_escape_shorter [of cs ch r] by simp
  then show "(r, c # cs) \<in> measure length" by simp
next
  fix c :: nat and cs :: pystr
  show "(cs, c # cs) \<in> measure length" by simp
qed

lemma scanstring_shorter: "scanstring s = Some (str, rest) \<Longrightarrow> length rest < length s"
proof (induction s arbitrary: str rest rule: scanstring.induct)
  case 1
  then show ?case by simp
next
  case (2 c cs)
  show ?case
  proof (cases "c = 34")
    case True
    with "2.prems" show ?thesis by simp
  next
    case False
    note nq = this
    show ?thesis
    proof (cases "c = 92")
      case True
      with "2.prems" nq obtain ch r str' where e: "scan_escape cs = Some (ch, r)"
        and s: "scanstring r = Some (str', rest)"
        by (auto split: option.splits)
      from "2.IH"(1) [OF nq True e refl s] scan_escape_shorter [OF e]
      show ?thesis by simp
    next
      case False
      with "2.prems" nq obtain str' where c32: "\<not> c < 32" and s: "scanstring cs = Some (str', rest)"
        by (auto split: option.splits if_splits)
      from "2.IH"(2) [OF nq False c32 s] show ?thesis by simp
    qed
  qed
qed

text \<open>
  A number: an optional minus, an integer part without a leading zero, then an
  optional fraction and an optional exponent, each taken only when it is complete.
  Without fraction and exponent the value is an \<^verbatim>\<open>int\<close>, and \<^verbatim>\<open>int\<close> raises its
  \<^verbatim>\<open>ValueError\<close> beyond 4300 digits; otherwise the value is a \<^verbatim>\<open>float\<close>.
\<close>

definition scan_int_part :: "pystr \<Rightarrow> (pystr \<times> pystr) option" where
  "scan_int_part s =
     (case s of
        [] \<Rightarrow> None
      | c # r \<Rightarrow>
          if c = 48 then Some ([c], r)
          else if 49 \<le> c \<and> c \<le> 57 then Some (c # takeWhile is_digit r, dropWhile is_digit r)
          else None)"

definition scan_frac :: "pystr \<Rightarrow> (pystr \<times> pystr) option" where
  "scan_frac s =
     (case s of
        p # d # r \<Rightarrow>
          if p = 46 \<and> is_digit d then Some (d # takeWhile is_digit r, dropWhile is_digit r)
          else None
      | _ \<Rightarrow> None)"

definition scan_exp :: "pystr \<Rightarrow> (int \<times> pystr) option" where
  "scan_exp s =
     (case s of
        e # r \<Rightarrow>
          if e = 101 \<or> e = 69 then
            (let (neg, r1) = split_sign r in
             if takeWhile is_digit r1 = [] then None
             else Some ((if neg then - int (digits_value (takeWhile is_digit r1))
                         else int (digits_value (takeWhile is_digit r1))),
                        dropWhile is_digit r1))
          else None
      | _ \<Rightarrow> None)"

definition scan_number :: "pystr \<Rightarrow> exn + (pyval \<times> pystr)" where
  "scan_number s =
     (let neg = (s \<noteq> [] \<and> hd s = 45); s1 = (if neg then tl s else s) in
      case scan_int_part s1 of
        None \<Rightarrow> Inl JSONDecodeError
      | Some (ip, r1) \<Rightarrow>
          (let (fp, r2) = (case scan_frac r1 of None \<Rightarrow> ([], r1) | Some (f, r) \<Rightarrow> (f, r)) in
           case scan_exp r2 of
             None \<Rightarrow>
               if fp = [] then
                 (if 4300 < length ip then Inl ValueError
                  else Inr (PInt (if neg then - int (digits_value ip)
                                  else int (digits_value ip)), r2))
               else
                 (let m = scale10 (of_nat (digits_value (ip @ fp))) (- int (length fp)) in
                  Inr (PFloat (to_binary64 (if neg then - m else m)), r2))
           | Some (e, r3) \<Rightarrow>
               (let m = scale10 (of_nat (digits_value (ip @ fp))) (e - int (length fp)) in
                Inr (PFloat (to_binary64 (if neg then - m else m)), r3))))"

text \<open>The constants, tried in the order of the scanner, around the number.\<close>

definition starts_with :: "string \<Rightarrow> pystr \<Rightarrow> bool" where
  "starts_with lit s \<longleftrightarrow> take (length lit) s = ustr lit"

definition scan_atom :: "pystr \<Rightarrow> exn + (pyval \<times> pystr)" where
  "scan_atom s =
     (if starts_with ''null'' s then Inr (PNone, drop 4 s)
      else if starts_with ''true'' s then Inr (PBool True, drop 4 s)
      else if starts_with ''false'' s then Inr (PBool False, drop 5 s)
      else (case scan_number s of
              Inr r \<Rightarrow> Inr r
            | Inl e \<Rightarrow>
                if e = ValueError then Inl ValueError
                else if starts_with ''NaN'' s then Inr (PFloat NaN, drop 3 s)
                else if starts_with ''Infinity'' s then Inr (PFloat PosInf, drop 8 s)
                else if starts_with ''-Infinity'' s then Inr (PFloat NegInf, drop 9 s)
                else Inl JSONDecodeError))"

text \<open>
  The recursive descent over values, array items and object members. The first
  argument bounds the number of calls still allowed; \<open>json_loads\<close> starts with
  more than twice the length of the text, which is never used up (lemma
  \<open>fuel_enough\<close> below). An object with a repeated key keeps the last value. The
  recursion limit of the interpreter, which a very deep nesting would reach, is not
  part of the model.
\<close>

fun scan_once :: "nat \<Rightarrow> pystr \<Rightarrow> exn + (pyval \<times> pystr)"
  and scan_array :: "nat \<Rightarrow> pyval list \<Rightarrow> pystr \<Rightarrow> exn + (pyval \<times> pystr)"
  and scan_object :: "nat \<Rightarrow> (pystr \<times> pyval) list \<Rightarrow> pystr \<Rightarrow> exn + (pyval \<times> pystr)"
where
  "scan_once 0 s = Inl JSONDecodeError"
| "scan_once (Suc n) s =
     (case s of
        [] \<Rightarrow> Inl JSONDecodeError
      | c # cs \<Rightarrow>
          if c = 34 then
            (case scanstring cs of
               None \<Rightarrow> Inl JSONDecodeError
             | Some (str, rest) \<Rightarrow> Inr (PStr str, rest))
          else if c = 123 then
            (case skip_ws cs of
               [] \<Rightarrow> Inl JSONDecodeError
             | c1 # r \<Rightarrow> if c1 = 125 then Inr (PDict [], r) else scan_object n [] (c1 # r))
          else if c = 91 then
            (case skip_ws cs of
               [] \<Rightarrow> Inl JSONDecodeError
             | c1 # r \<Rightarrow> if c1 = 93 then Inr (PList [], r) else scan_array n [] (c1 # r))
          else scan_atom s)"
| "scan_array 0 acc s = Inl JSONDecodeError"
| "scan_array (Suc n) acc s =
     (case scan_once n s of
        Inl e \<Rightarrow> Inl e
      | Inr (v, r) \<Rightarrow>
          (case skip_ws r of
             [] \<Rightarrow> Inl JSONDecodeError
           | c # r1 \<Rightarrow>
               if c = 93 then Inr (PList (acc @ [v]), r1)
               else if c = 44 then scan_array n (acc @ [v]) (skip_ws r1)
               else Inl JSONDecodeError))"
| "scan_object 0 acc s = Inl JSONDecodeError"
| "scan_object (Suc n) acc s =
     (case s of
        [] \<Rightarrow> Inl JSONDecodeError
      | q # cs \<Rightarrow>
          if q = 34 then
            (case scanstring cs of
               None \<Rightarrow> Inl JSONDecodeError
             | Some (key, r) \<Rightarrow>
                 (case skip_ws r of
                    [] \<Rightarrow> Inl JSONDecodeError
                  | c # r1 \<Rightarrow>
                      if c = 58 then
                        (case scan_once n (skip_ws r1) of
                           Inl e \<Rightarrow> Inl e
                         | Inr (v, r2) \<Rightarrow>
                             (case skip_ws r2 of
                                [] \<Rightarrow> Inl JSONDecodeError
                              | c2 # r3 \<Rightarrow>
                                  if c2 = 125 then Inr (PDict (dict_set acc key v), r3)
                                  else if c2 = 44 then scan_object n (dict_set acc key v) (skip_ws r3)
                                  else Inl JSONDecodeError))
                      else Inl JSONDecodeError))
          else Inl JSONDecodeError)"

definition json_loads :: "pystr \<Rightarrow> exn + pyval" where
  "json_loads s =
     (case scan_once (Suc (length s + length s)) (skip_ws s) of
        Inl e \<Rightarrow> Inl e
      | Inr (v, rest) \<Rightarrow> if skip_ws rest = [] then Inr v else Inl JSONDecodeError)"

text \<open>
  Every scanner reads at least one character, so the bound on the number of calls
  that \<open>json_loads\<close> starts with is never reached: a larger bound gives the same
  result.
\<close>

lemma skip_ws_length: "length (skip_ws s) \<le> length s"
  by (simp add: skip_ws_def length_dropWhile_le)

lemma split_sign_length: "split_sign s = (neg, r) \<Longrightarrow> length r \<le> length s"
  by (cases s) (auto split: if_splits)

lemma scan_int_part_shorter: "scan_int_part s = Some (ip, r) \<Longrightarrow> length r < length s"
  by (auto simp: scan_int_part_def less_Suc_eq_le length_dropWhile_le
        split: list.splits if_splits)

lemma scan_frac_shorter: "scan_frac s = Some (f, r) \<Longrightarrow> length r < length s"
proof -
  assume a: "scan_frac s = Some (f, r)"
  then obtain p d t where s: "s = p # d # t" and r: "r = dropWhile is_digit t"
    by (auto simp: scan_frac_def split: list.splits if_splits)
  have "length (dropWhile is_digit t) \<le> length t"
    by (rule length_dropWhile_le)
  with s r show ?thesis by simp
qed

lemma scan_exp_shorter: "scan_exp s = Some (e, r) \<Longrightarrow> length r < length s"
proof -
  assume a: "scan_exp s = Some (e, r)"
  then obtain c t where s: "s = c # t"
    by (cases s) (auto simp: scan_exp_def)
  obtain neg t1 where sp: "split_sign t = (neg, t1)"
    by (cases "split_sign t")
  from a s sp have r: "r = dropWhile is_digit t1"
    by (auto simp: scan_exp_def split: if_splits)
  have "length (dropWhile is_digit t1) \<le> length t1"
    by (rule length_dropWhile_le)
  with split_sign_length [OF sp] s r show ?thesis by simp
qed

lemma scan_number_shorter: "scan_number s = Inr (v, r) \<Longrightarrow> length r < length s"
proof -
  assume a: "scan_number s = Inr (v, r)"
  define s1 where "s1 = (if s \<noteq> [] \<and> hd s = 45 then tl s else s)"
  have l1: "length s1 \<le> length s"
    by (simp add: s1_def)
  from a obtain ip r1 where i: "scan_int_part s1 = Some (ip, r1)"
    by (auto simp: scan_number_def s1_def Let_def split: option.splits)
  then have l2: "length r1 < length s1"
    by (rule scan_int_part_shorter)
  define r2 where "r2 = (case scan_frac r1 of None \<Rightarrow> r1 | Some (f, r) \<Rightarrow> r)"
  have l3: "length r2 \<le> length r1"
    using scan_frac_shorter [of r1]
    by (auto simp: r2_def split: option.splits dest: less_imp_le)
  have "r = r2 \<or> (\<exists>e. scan_exp r2 = Some (e, r))"
    using a i
    by (auto simp: scan_number_def s1_def [symmetric] r2_def Let_def
          split: option.splits prod.splits if_splits)
  then have "length r \<le> length r2"
    using scan_exp_shorter [of r2] by (auto dest: less_imp_le)
  with l1 l2 l3 show ?thesis by simp
qed

lemma starts_with_length: "starts_with lit s \<Longrightarrow> length lit \<le> length s"
proof -
  assume "starts_with lit s"
  then have "length (take (length lit) s) = length (ustr lit)"
    by (simp add: starts_with_def)
  then show ?thesis by (simp add: ustr_def)
qed

lemma scan_atom_shorter: "scan_atom s = Inr (v, r) \<Longrightarrow> length r < length s"
  using starts_with_length [of "''null''" s] starts_with_length [of "''true''" s]
    starts_with_length [of "''false''" s] starts_with_length [of "''NaN''" s]
    starts_with_length [of "''Infinity''" s] starts_with_length [of "''-Infinity''" s]
  by (auto simp: scan_atom_def split: if_splits sum.splits dest: scan_number_shorter)

lemma scan_shorter:
  "scan_once n s = Inr (v, r) \<Longrightarrow> length r < length s"
  "scan_array n acc s = Inr (v, r) \<Longrightarrow> length r < length s"
  "scan_object n kvs s = Inr (v, r) \<Longrightarrow> length r < length s"
proof (induction n s and n acc s and n kvs s arbitrary: v r and v r and v r
    rule: scan_once_scan_array_scan_object.induct)
  case (1 s)
  then show ?case by simp
next
  case (2 n s)
  from "2.prems" obtain c cs where s: "s = c # cs"
    by (cases s) auto
  consider (str) "c = 34" | (obj) "c \<noteq> 34" "c = 123" | (arr) "c \<noteq> 34" "c \<noteq> 123" "c = 91"
    | (atom) "c \<noteq> 34" "c \<noteq> 123" "c \<noteq> 91"
    by blast
  then show ?case
  proof cases
    case str
    with "2.prems" s show ?thesis
      by (auto split: option.splits dest: scanstring_shorter)
  next
    case obj
    from "2.prems" s obj obtain c1 t where sk: "skip_ws cs = c1 # t"
      by (cases "skip_ws cs") auto
    have le: "length (c1 # t) \<le> length cs"
      using skip_ws_length [of cs] sk by simp
    show ?thesis
    proof (cases "c1 = 125")
      case True
      with "2.prems" s obj sk le show ?thesis by auto
    next
      case False
      with "2.prems" s obj sk have "scan_object n [] (c1 # t) = Inr (v, r)"
        by simp
      from "2.IH"(1) [OF s obj sk False this] le s show ?thesis by simp
    qed
  next
    case arr
    from "2.prems" s arr obtain c1 t where sk: "skip_ws cs = c1 # t"
      by (cases "skip_ws cs") auto
    have le: "length (c1 # t) \<le> length cs"
      using skip_ws_length [of cs] sk by simp
    show ?thesis
    proof (cases "c1 = 93")
      case True
      with "2.prems" s arr sk le show ?thesis by auto
    next
      case False
      with "2.prems" s arr sk have "scan_array n [] (c1 # t) = Inr (v, r)"
        by simp
      from "2.IH"(2) [OF s arr sk False this] le s show ?thesis by simp
    qed
  next
    case atom
    with "2.prems" s have "scan_atom s = Inr (v, r)" by simp
    then show ?thesis by (rule scan_atom_shorter)
  qed
next
  case (3 acc s)
  then show ?case by simp
next
  case (4 n acc s)
  from "4.prems" obtain v1 r1 where o: "scan_once n s = Inr (v1, r1)"
    by (auto split: sum.splits)
  from "4.IH"(1) [OF o] have l1: "length r1 < length s" .
  from "4.prems" o obtain c t where sk: "skip_ws r1 = c # t"
    by (cases "skip_ws r1") auto
  have le: "length (c # t) \<le> length r1"
    using skip_ws_length [of r1] sk by simp
  show ?case
  proof (cases "c = 93")
    case True
    with "4.prems" o sk le l1 show ?thesis by auto
  next
    case False
    note n93 = this
    show ?thesis
    proof (cases "c = 44")
      case True
      with "4.prems" o sk n93 have a: "scan_array n (acc @ [v1]) (skip_ws t) = Inr (v, r)"
        by simp
      from "4.IH"(2) [OF o refl sk n93 True a] skip_ws_length [of t] le l1
      show ?thesis by simp
    next
      case False
      with "4.prems" o sk n93 show ?thesis by simp
    qed
  qed
next
  case (5 kvs s)
  then show ?case by simp
next
  case (6 n kvs s)
  from "6.prems" obtain q cs where s: "s = q # cs"
    by (cases s) auto
  from "6.prems" s have q: "q = 34"
    by (auto split: if_splits)
  from "6.prems" s q obtain key r0 where k: "scanstring cs = Some (key, r0)"
    by (auto split: option.splits)
  have l0: "length r0 < length cs"
    using k by (rule scanstring_shorter)
  from "6.prems" s q k obtain c t where sk: "skip_ws r0 = c # t"
    by (cases "skip_ws r0") auto
  have le: "length (c # t) \<le> length r0"
    using skip_ws_length [of r0] sk by simp
  from "6.prems" s q k sk have c: "c = 58"
    by (auto split: if_splits)
  from "6.prems" s q k sk c obtain v1 r2 where o: "scan_once n (skip_ws t) = Inr (v1, r2)"
    by (auto split: sum.splits)
  from "6.IH"(1) [OF s q k refl sk c o] skip_ws_length [of t]
  have l2: "length r2 < length t" by simp
  from "6.prems" s q k sk c o obtain c2 t2 where sk2: "skip_ws r2 = c2 # t2"
    by (cases "skip_ws r2") auto
  have le2: "length (c2 # t2) \<le> length r2"
    using skip_ws_length [of r2] sk2 by simp
  show ?case
  proof (cases "c2 = 125")
    case True
    with "6.prems" s q k sk c o sk2 le le2 l0 l2 show ?thesis by auto
  next
    case False
    note n125 = this
    show ?thesis
    proof (cases "c2 = 44")
      case True
      with "6.prems" s q k sk c o sk2 n125
      have a: "scan_object n (dict_set kvs key v1) (skip_ws t2) = Inr (v, r)"
        by simp
      from "6.IH"(2) [OF s q k refl sk c o refl sk2 n125 True a]
        skip_ws_length [of t2] le le2 l0 l2 s
      show ?thesis by simp
    next
      case False
      with "6.prems" s q k sk c o sk2 n125 show ?thesis by simp
    qed
  qed
qed

lemma fuel_enough:
  "2 * length s < n \<Longrightarrow> n \<le> m \<Longrightarrow> scan_once m s = scan_once n s"
  "2 * length s + 1 < n \<Longrightarrow> n \<le> m \<Longrightarrow> scan_array m acc s = scan_array n acc s"
  "2 * length s + 1 < n \<Longrightarrow> n \<le> m \<Longrightarrow> scan_object m kvs s = scan_object n kvs s"
proof (induction n s and n acc s and n kvs s arbitrary: m and m and m
    rule: scan_once_scan_array_scan_object.induct)
  case (1 s)
  then show ?case by simp
next
  case (2 n s)
  from "2.prems" obtain m' where m: "m = Suc m'" and nm: "n \<le> m'"
    by (cases m) auto
  show ?case
  proof (cases s)
    case Nil
    with m show ?thesis by simp
  next
    case (Cons c cs)
    note s = this
    consider (str) "c = 34" | (obj) "c \<noteq> 34" "c = 123" | (arr) "c \<noteq> 34" "c \<noteq> 123" "c = 91"
      | (atom) "c \<noteq> 34" "c \<noteq> 123" "c \<noteq> 91"
      by blast
    then show ?thesis
    proof cases
      case str
      with s m show ?thesis by simp
    next
      case obj
      show ?thesis
      proof (cases "skip_ws cs")
        case Nil
        with s m obj show ?thesis by simp
      next
        case (Cons c1 t)
        note sk = this
        have le: "length (c1 # t) \<le> length cs"
          using skip_ws_length [of cs] sk by simp
        show ?thesis
        proof (cases "c1 = 125")
          case True
          with s m obj sk show ?thesis by simp
        next
          case False
          have "2 * length (c1 # t) + 1 < n"
            using le s "2.prems"(1) by simp
          from "2.IH"(1) [OF s obj sk False this nm] s m obj sk False
          show ?thesis by simp
        qed
      qed
    next
      case arr
      show ?thesis
      proof (cases "skip_ws cs")
        case Nil
        with s m arr show ?thesis by simp
      next
        case (Cons c1 t)
        note sk = this
        have le: "length (c1 # t) \<le> length cs"
          using skip_ws_length [of cs] sk by simp
        show ?thesis
        proof (cases "c1 = 93")
          case True
          with s m arr sk show ?thesis by simp
        next
          case False
          have "2 * length (c1 # t) + 1 < n"
            using le s "2.prems"(1) by simp
          from "2.IH"(2) [OF s arr sk False this nm] s m arr sk False
          show ?thesis by simp
        qed
      qed
    next
      case atom
      with s m show ?thesis by simp
    qed
  qed
next
  case (3 acc s)
  then show ?case by simp
next
  case (4 n acc s)
  from "4.prems" obtain m' where m: "m = Suc m'" and nm: "n \<le> m'"
    by (cases m) auto
  have o: "scan_once m' s = scan_once n s"
    using "4.IH"(1) [OF _ nm] "4.prems"(1) by simp
  show ?case
  proof (cases "scan_once n s")
    case (Inl e)
    with o m show ?thesis by simp
  next
    case (Inr x)
    obtain v1 r1 where x: "x = (v1, r1)" by (cases x)
    from Inr x have l1: "length r1 < length s"
      using scan_shorter(1) [of n s v1 r1] by simp
    show ?thesis
    proof (cases "skip_ws r1")
      case Nil
      with Inr x o m show ?thesis by simp
    next
      case (Cons c t)
      note sk = this
      have le: "length (c # t) \<le> length r1"
        using skip_ws_length [of r1] sk by simp
      show ?thesis
      proof (cases "c \<noteq> 93 \<and> c = 44")
        case True
        then have n93: "c \<noteq> 93" and c44: "c = 44" by simp_all
        have "2 * length (skip_ws t) + 1 < n"
          using skip_ws_length [of t] le l1 "4.prems"(1) by simp
        from "4.IH"(2) [OF Inr x [symmetric] sk n93 c44 this nm] Inr x o m sk n93 c44
        show ?thesis by simp
      next
        case False
        with Inr x o m sk show ?thesis by auto
      qed
    qed
  qed
next
  case (5 kvs s)
  then show ?case by simp
next
  case (6 n kvs s)
  from "6.prems" obtain m' where m: "m = Suc m'" and nm: "n \<le> m'"
    by (cases m) auto
  show ?case
  proof (cases s)
    case Nil
    with m show ?thesis by simp
  next
    case (Cons q cs)
    note s = this
    show ?thesis
    proof (cases "q = 34")
      case False
      with s m show ?thesis by simp
    next
      case True
      note q = this
      show ?thesis
      proof (cases "scanstring cs")
        case None
        with s m q show ?thesis by simp
      next
        case (Some x)
        obtain key r0 where x: "x = (key, r0)" by (cases x)
        from Some x have l0: "length r0 < length cs"
          using scanstring_shorter [of cs key r0] by simp
        show ?thesis
        proof (cases "skip_ws r0")
          case Nil
          with s m q Some x show ?thesis by simp
        next
          case (Cons c t)
          note sk = this
          have le: "length (c # t) \<le> length r0"
            using skip_ws_length [of r0] sk by simp
          show ?thesis
          proof (cases "c = 58")
            case False
            with s m q Some x sk show ?thesis by simp
          next
            case True
            note c = this
            have "2 * length (skip_ws t) < n"
              using skip_ws_length [of t] le l0 s "6.prems"(1) by simp
            from "6.IH"(1) [OF s q Some x [symmetric] sk c this nm]
            have o: "scan_once m' (skip_ws t) = scan_once n (skip_ws t)" .
            show ?thesis
            proof (cases "scan_once n (skip_ws t)")
              case (Inl e)
              with s m q \<open>scanstring cs = Some x\<close> x sk c o show ?thesis by simp
            next
              case (Inr y)
              note oy = this
              obtain v1 r2 where y: "y = (v1, r2)" by (cases y)
              from oy y have l2: "length r2 < length (skip_ws t)"
                using scan_shorter(1) [of n "skip_ws t" v1 r2] by simp
              show ?thesis
              proof (cases "skip_ws r2")
                case Nil
                with s m q \<open>scanstring cs = Some x\<close> x sk c o oy y show ?thesis by simp
              next
                case (Cons c2 t2)
                note sk2 = this
                have le2: "length (c2 # t2) \<le> length r2"
                  using skip_ws_length [of r2] sk2 by simp
                show ?thesis
                proof (cases "c2 \<noteq> 125 \<and> c2 = 44")
                  case True
                  then have n125: "c2 \<noteq> 125" and c44: "c2 = 44" by simp_all
                  have "2 * length (skip_ws t2) + 1 < n"
                    using skip_ws_length [of t2] skip_ws_length [of t] le le2 l0 l2 s "6.prems"(1)
                    by simp
                  from "6.IH"(2) [OF s q \<open>scanstring cs = Some x\<close> x [symmetric] sk c oy
                      y [symmetric] sk2 n125 c44 this nm]
                    s m q \<open>scanstring cs = Some x\<close> x sk c o oy y sk2 n125 c44
                  show ?thesis by simp
                next
                  case False
                  with s m q \<open>scanstring cs = Some x\<close> x sk c o oy y sk2 show ?thesis by auto
                qed
              qed
            qed
          qed
        qed
      qed
    qed
  qed
qed

text \<open>The result of \<open>json_loads\<close> does not depend on the bound it starts with.\<close>

lemma json_loads_fuel:
  "Suc (length s + length s) \<le> m \<Longrightarrow>
   json_loads s = (case scan_once m (skip_ws s) of
                     Inl e \<Rightarrow> Inl e
                   | Inr (v, rest) \<Rightarrow> if skip_ws rest = [] then Inr v else Inl JSONDecodeError)"
proof -
  assume m: "Suc (length s + length s) \<le> m"
  have "2 * length (skip_ws s) < Suc (length s + length s)"
    using skip_ws_length [of s] by simp
  from fuel_enough(1) [OF this m] show ?thesis
    by (simp add: json_loads_def)
qed

section \<open>The payload assembler\<close>

text \<open>
  The two statements that \<^verbatim>\<open>prompt_for_payload\<close> has twice (lines 126, 127 and
  131, 132 of the source), with the prompt that differs: the line is not stripped,
  and an empty line gives the empty dict.
\<close>

definition read_json_body :: "event \<Rightarrow> world \<Rightarrow> (exn + pyval) \<times> world" where
  "read_json_body prompt w =
     (case input prompt w of
        (Inl e, w') \<Rightarrow> (Inl e, w')
      | (Inr raw, w') \<Rightarrow> if raw \<noteq> [] then (json_loads raw, w') else (Inr (PDict []), w'))"

text \<open>The argument is \<^verbatim>\<open>None\<close> (\<open>PNone\<close>) when the operation has no schema.\<close>

definition prompt_for_payload :: "pyval \<Rightarrow> world \<Rightarrow> (exn + pyval) \<times> world" where
  "prompt_for_payload schema w =
     (if \<not> truthy schema then read_json_body RawJsonOrEmptyPrompt w
      else
        (case schema of
           PDict d \<Rightarrow>
             if dict_get d (ustr ''type'') = PStr (ustr ''object'')
             then prompt_for_object schema (print FillFieldsNotice w)
             else read_json_body RawJsonPrompt w
         | _ \<Rightarrow> (Inl AttributeError, w)))"

section \<open>The session\<close>

text \<open>The catalog \<^verbatim>\<open>COMMANDS\<close>, with the three schemas named after their operations.\<close>

definition string_array :: pyval where
  "string_array =
     PDict [(ustr ''type'', PStr (ustr ''array'')),
            (ustr ''items'', PDict [(ustr ''type'', PStr (ustr ''string''))])]"

definition analytics_stocks_schema :: pyval where
  "analytics_stocks_schema =
     PDict
      [(ustr ''type'', PStr (ustr ''object'')),
       (ustr ''properties'', PDict
         [(ustr ''cluster_ids'', string_array),
          (ustr ''item_tags'', PDict
            [(ustr ''type'', PStr (ustr ''array'')),
             (ustr ''items'', PDict
               [(ustr ''type'', PStr (ustr ''string'')),
                (ustr ''enum'', PList
                  [PStr (ustr ''ITEM_ATTRIBUTE_NONE''),
                   PStr (ustr ''ITEM_ATTRIBUTE_BEST_SELLER''),
                   PStr (ustr ''ITEM_ATTRIBUTE_EXCLUSIVE'')])])]),
          (ustr ''skus'', string_array),
          (ustr ''turnover_grades'', PDict
            [(ustr ''type'', PStr (ustr ''array'')),
             (ustr ''items'', PDict
               [(ustr ''type'', PStr (ustr ''string'')),
                (ustr ''enum'', PList
                  [PStr (ustr ''TURNOVER_GRADE_NONE''),
                   PStr (ustr ''TURNOVER_GRADE_GREEN''),
                   PStr (ustr ''TURNOVER_GRADE_YELLOW''),
                   PStr (ustr ''TURNOVER_GRADE_RED'')])])]),
          (ustr ''warehouse_ids'', string_array)]),
       (ustr ''required'', PList [])]"

definition supply_order_get_schema :: pyval where
  "supply_order_get_schema =
     PDict
      [(ustr ''type'', PStr (ustr ''object'')),
       (ustr ''properties'', PDict
         [(ustr ''order_ids'', PDict
            [(ustr ''type'', PStr (ustr ''array'')),
             (ustr ''items'', PDict [(ustr ''type'', PStr (ustr ''integer''))])])]),
       (ustr ''required'', PList [PStr (ustr ''order_ids'')])]"

definition supply_order_list_schema :: pyval where
  "supply_order_list_schema =
     PDict
      [(ustr ''type'', PStr (ustr ''object'')),
       (ustr ''properties'', PDict
         [(ustr ''limit'', PDict [(ustr ''type'', PStr (ustr ''integer'')), (ustr ''default'', PInt 100)]),
          (ustr ''offset'', PDict [(ustr ''type'', PStr (ustr ''integer'')), (ustr ''default'', PInt 0)]),
          (ustr ''status'', PDict [(ustr ''type'', PStr (ustr ''string''))])]),
       (ustr ''required'', PList [])]"

definition COMMANDS :: "(pystr \<times> pyval) list" where
  "COMMANDS =
     [(ustr ''v1/analytics/stocks'', PDict
        [(ustr ''method'', PStr (ustr ''post'')),
         (ustr ''summary'', PStr
            [1055, 1086, 1083, 1091, 1095, 1080, 1090, 1100, 32, 1072, 1085, 1072, 1083, 1080,
             1090, 1080, 1082, 1091, 32, 1087, 1086, 32, 1086, 1089, 1090, 1072, 1090, 1082,
             1072, 1084]),
         (ustr ''schema'', analytics_stocks_schema)]),
      (ustr ''v3/supply-order/get'', PDict
        [(ustr ''method'', PStr (ustr ''post'')),
         (ustr ''summary'', PStr
            [1055, 1086, 1083, 1091, 1095, 1080, 1090, 1100, 32, 1080, 1085, 1092, 1086, 1088,
             1084, 1072, 1094, 1080, 1102, 32, 1086, 32, 1079, 1072, 1103, 1074, 1082, 1072,
             1093, 32, 1085, 1072, 32, 1087, 1086, 1089, 1090, 1072, 1074, 1082, 1091]),
         (ustr ''schema'', supply_order_get_schema)]),
      (ustr ''v3/supply-order/list'', PDict
        [(ustr ''method'', PStr (ustr ''post'')),
         (ustr ''summary'', PStr
            [1057, 1087, 1080, 1089, 1086, 1082, 32, 1079, 1072, 1103, 1074, 1086, 1082, 32,
             1085, 1072, 32, 1087, 1086, 1089, 1090, 1072, 1074, 1082, 1091]),
         (ustr ''schema'', supply_order_list_schema)])]"

definition BASE_URL :: pystr where
  "BASE_URL = ustr ''https://api-seller.ozon.ru/''"

text \<open>
  The remote service is outside the program: it is a parameter, a function from the
  request that \<^verbatim>\<open>requests\<close> sends to what comes back. \<open>NoReply\<close> is any exception
  raised by the call; the body of a reply either decodes as JSON or is shown as text.
\<close>

record request =
  req_method :: pystr
  req_url :: pystr
  req_client_id :: pystr
  req_api_key :: pystr
  req_json :: pyval

datatype body = JsonBody pyval | TextBody pystr

datatype reply = NoReply | Reply nat body

type_synonym network = "request \<Rightarrow> reply"

definition verify_credentials :: "pystr \<Rightarrow> pystr \<Rightarrow> network \<Rightarrow> bool" where
  "verify_credentials client_id api_key net =
     (case net \<lparr>req_method = ustr ''post'', req_url = BASE_URL @ ustr ''v1/warehouse/list'',
                 req_client_id = client_id, req_api_key = api_key, req_json = PDict []\<rparr> of
        NoReply \<Rightarrow> False
      | Reply status_code b \<Rightarrow> status_code = 200)"

text \<open>The \<^verbatim>\<open>for\<close> loop of \<^verbatim>\<open>choose_command\<close> that prints the numbered menu.\<close>

fun print_menu :: "nat \<Rightarrow> (pystr \<times> pyval) list \<Rightarrow> world \<Rightarrow> (exn + unit) \<times> world" where
  "print_menu idx [] w = (Inr (), w)"
| "print_menu idx ((name, meta) # items) w =
     (case meta of
        PDict m \<Rightarrow>
          print_menu (Suc idx) items
            (print (MenuItem idx name (dict_get_or m (ustr ''summary'') (PStr []))) w)
      | _ \<Rightarrow> (Inl AttributeError, w))"

lemma print_menu_stdin: "print_menu idx items w = (r, w') \<Longrightarrow> stdin w' = stdin w"
  by (induction idx items w rule: print_menu.induct)
     (auto simp: print_def split: pyval.splits)

text \<open>
  \<^verbatim>\<open>choose_command\<close> asks again, by calling itself, after an answer that is not a
  number of the menu. The items are sorted by name, in the order of \<^verbatim>\<open>str\<close>.
\<close>

function choose_command :: "(pystr \<times> pyval) list \<Rightarrow> world \<Rightarrow> (exn + pystr option) \<times> world" where
  "choose_command commands w =
     (case print_menu 1 (sort_key fst commands) (print MenuHeader w) of
        (Inl e, w1) \<Rightarrow> (Inl e, w1)
      | (Inr u, w1) \<Rightarrow>
          (case input MenuPrompt w1 of
             (Inl e, w2) \<Rightarrow> (Inl e, w2)
           | (Inr line, w2) \<Rightarrow>
               if strip line = [] then (Inr None, w2)
               else
                 (case py_int (strip line) of
                    None \<Rightarrow> choose_command commands (print NotANumberNotice w2)
                  | Some idx \<Rightarrow>
                      if \<not> (1 \<le> idx \<and> idx \<le> int (length commands))
                      then choose_command commands (print WrongNumberNotice w2)
                      else (Inr (Some (fst (sort_key fst commands ! nat (idx - 1)))), w2))))"
  by pat_completeness auto
termination
proof (relation "measure (\<lambda>(commands, w). length (stdin w))")
  show "wf (measure (\<lambda>(commands, w). length (stdin w)))"
    by simp
next
  fix commands :: "(pystr \<times> pyval) list" and w x w1 u y w2 line
  assume "(x, w1) = print_menu 1 (sort_key fst commands) (print MenuHeader w)"
    and "(y, w2) = input MenuPrompt w1" and "y = Inr line"
  then have "length (stdin w2) < length (stdin w)"
    using print_menu_stdin [of 1 "sort_key fst commands" "print MenuHeader w" x w1]
      input_consumes [of MenuPrompt w1 line w2]
    by (simp add: print_def)
  then show "((commands, print NotANumberNotice w2), (commands, w))
      \<in> measure (\<lambda>(commands, w). length (stdin w))"
    by (simp add: print_def)
  from \<open>length (stdin w2) < length (stdin w)\<close>
  show "((commands, print WrongNumberNotice w2), (commands, w))
      \<in> measure (\<lambda>(commands, w). length (stdin w))"
    by (simp add: print_def)
qed

text \<open>
  \<^verbatim>\<open>run_command\<close>: the payload is built before the \<^verbatim>\<open>try\<close> statement, which
  covers the request and the printing of the answer only. The request line is
  recorded with the method in lower case; the source prints it in upper case.
\<close>

definition send_request :: "pystr \<Rightarrow> pystr \<Rightarrow> pystr \<Rightarrow> pystr \<Rightarrow> pyval \<Rightarrow> network \<Rightarrow> world \<Rightarrow> world" where
  "send_request method url client_id api_key payload net w =
     (case net \<lparr>req_method = method, req_url = url, req_client_id = client_id,
                 req_api_key = api_key,
                 req_json = (if truthy payload then payload else PNone)\<rparr> of
        NoReply \<Rightarrow> print RequestFailedNotice w
      | Reply status_code (JsonBody v) \<Rightarrow> print (ResponseJson v) (print ResponseHeader w)
      | Reply status_code (TextBody t) \<Rightarrow> print (ResponseText t) (print ResponseHeader w))"

definition run_command ::
    "pystr \<Rightarrow> pyval \<Rightarrow> pystr \<Rightarrow> pystr \<Rightarrow> network \<Rightarrow> world \<Rightarrow> (exn + unit) \<times> world" where
  "run_command command meta client_id api_key net w =
     (case meta of
        PDict m \<Rightarrow>
          (case dict_get_or m (ustr ''method'') (PStr (ustr ''post'')) of
             PStr meth \<Rightarrow>
               (let method = lower meth; schema = dict_get m (ustr ''schema'') in
                case prompt_for_payload schema w of
                  (Inl e, w') \<Rightarrow> (Inl e, w')
                | (Inr payload, w') \<Rightarrow>
                    (let url = BASE_URL @ command in
                     (Inr (), send_request method url client_id api_key payload net
                                (print (RequestNotice method url payload) w'))))
           | _ \<Rightarrow> (Inl AttributeError, w))
      | _ \<Rightarrow> (Inl AttributeError, w))"

lemma array_loop_stdin:
  "array_loop item_schema vs w = (r, w') \<Longrightarrow> length (stdin w') \<le> length (stdin w)"
proof (induction item_schema vs w rule: array_loop.induct)
  case (1 item_schema vs w)
  obtain x w1 where i: "input ElementPrompt w = (x, w1)"
    by (cases "input ElementPrompt w")
  then have l1: "length (stdin w1) \<le> length (stdin w)"
    by (rule input_stdin)
  show ?case
  proof (cases x)
    case (Inl e)
    with 1(2) i l1 show ?thesis by (simp add: array_loop.simps [of item_schema vs w])
  next
    case (Inr line)
    show ?thesis
    proof (cases "strip line = []")
      case True
      with 1(2) i l1 Inr show ?thesis by (simp add: array_loop.simps [of item_schema vs w])
    next
      case False
      obtain y w2 where c: "convert_primitive (strip line) item_schema w1 = (y, w2)"
        by (cases "convert_primitive (strip line) item_schema w1")
      then have l2: "length (stdin w2) \<le> length (stdin w1)"
        by (rule convert_primitive_stdin)
      show ?thesis
      proof (cases y)
        case (Inl e)
        with 1(2) i Inr False c l1 l2 show ?thesis
          by (simp add: array_loop.simps [of item_schema vs w])
      next
        case (Inr v)
        with 1(2) i \<open>x = Inr line\<close> False c
        have "array_loop item_schema (vs @ [v]) w2 = (r, w')"
          by (simp add: array_loop.simps [of item_schema vs w])
        with 1(1) [OF i [symmetric] \<open>x = Inr line\<close> False c [symmetric] Inr]
        have "length (stdin w') \<le> length (stdin w2)" by simp
        with l1 l2 show ?thesis by simp
      qed
    qed
  qed
qed

lemma fill_choice_stdin:
  "fill_choice is_required title w = (r, w') \<Longrightarrow> length (stdin w') \<le> length (stdin w)"
  by (auto simp: fill_choice_def split: if_splits prod.splits sum.splits dest: input_stdin)

lemma builder_stdin:
  "prompt_for_value name schema w = (r, w') \<Longrightarrow> length (stdin w') \<le> length (stdin w)"
  "prompt_for_object schema w = (r, w') \<Longrightarrow> length (stdin w') \<le> length (stdin w)"
  "object_loop required props result w = (r, w') \<Longrightarrow> length (stdin w') \<le> length (stdin w)"
proof (induction name schema w and schema w and required props result w
    arbitrary: r w' and r w' and r w'
    rule: prompt_for_value_prompt_for_object_object_loop.induct)
  case (1 name schema w)
  from "1.prems" [unfolded prompt_for_value.simps [of name schema w]] "1.IH"
  show ?case
    by (auto split: pyval.splits if_splits prod.splits sum.splits
           dest!: array_loop_stdin input_stdin convert_primitive_stdin simp: print_def)
next
  case (2 schema w)
  from "2.prems" [unfolded prompt_for_object.simps [of schema w]] "2.IH"
  show ?case
    by (auto split: pyval.splits if_splits prod.splits sum.splits)
next
  case (3 required result w)
  then show ?case by simp
next
  case (4 required key prop_schema rest result w)
  show ?case
  proof (cases prop_schema)
    case (PDict ps)
    define title where "title = (if truthy (dict_get ps (ustr ''description''))
                        then dict_get ps (ustr ''description'') else PStr key)"
    obtain c w1 where f: "fill_choice (PStr key \<in> set required) title w = (c, w1)"
      by (cases "fill_choice (PStr key \<in> set required) title w")
    then have l1: "length (stdin w1) \<le> length (stdin w)"
      by (rule fill_choice_stdin)
    show ?thesis
    proof (cases c)
      case (Inl e)
      with "4.prems" PDict f l1 show ?thesis
        by (simp add: Let_def title_def)
    next
      case (Inr b)
      show ?thesis
      proof (cases b)
        case False
        then have bF: "b = False" by simp
        from False "4.prems" PDict f Inr
        have "object_loop required rest result w1 = (r, w')"
          by (simp add: Let_def title_def)
        with "4.IH"(3) [OF PDict refl title_def f [symmetric] Inr bF]
        have "length (stdin w') \<le> length (stdin w1)" .
        with l1 show ?thesis by simp
      next
        case True
        then have bT: "b = True" by simp
        obtain y w2 where v: "prompt_for_value title prop_schema w1 = (y, w2)"
          by (cases "prompt_for_value title prop_schema w1")
        with "4.IH"(1) [OF PDict refl title_def f [symmetric] Inr bT]
        have l2: "length (stdin w2) \<le> length (stdin w1)" .
        show ?thesis
        proof (cases y)
          case (Inl e)
          with "4.prems" PDict f \<open>c = Inr b\<close> True v l1 l2 show ?thesis
            by (simp add: Let_def title_def)
        next
          case (Inr val)
          with "4.prems" PDict f \<open>c = Inr b\<close> True v
          have "object_loop required rest (dict_set result key val) w2 = (r, w')"
            by (simp add: Let_def title_def)
          with "4.IH"(2) [OF PDict refl title_def f [symmetric] \<open>c = Inr b\<close> bT v [symmetric] Inr]
          have "length (stdin w') \<le> length (stdin w2)" .
          with l1 l2 show ?thesis by simp
        qed
      qed
    qed
  qed (use "4.prems" in auto)
qed

lemma read_json_body_stdin:
  "read_json_body prompt w = (r, w') \<Longrightarrow> length (stdin w') \<le> length (stdin w)"
  by (auto simp: read_json_body_def split: prod.splits sum.splits if_splits dest: input_stdin)

lemma prompt_for_payload_stdin:
  "prompt_for_payload schema w = (r, w') \<Longrightarrow> length (stdin w') \<le> length (stdin w)"
  by (auto simp: prompt_for_payload_def print_def
        split: if_splits pyval.splits dest: read_json_body_stdin builder_stdin(2))

lemma send_request_stdin:
  "stdin (send_request method url client_id api_key payload net w) = stdin w"
  by (simp add: send_request_def print_def split: reply.splits body.splits)

lemma run_command_stdin:
  "run_command command meta client_id api_key net w = (r, w') \<Longrightarrow>
   length (stdin w') \<le> length (stdin w)"
  by (auto simp: run_command_def Let_def send_request_stdin print_def
        split: pyval.splits prod.splits sum.splits dest: prompt_for_payload_stdin)

declare choose_command.simps [simp del]

lemma choose_command_consumes:
  "choose_command commands w = (Inr r, w') \<Longrightarrow> length (stdin w') < length (stdin w)"
proof (induction commands w rule: choose_command.induct)
  case (1 commands w)
  obtain x w1 where m: "print_menu 1 (sort_key fst commands) (print MenuHeader w) = (x, w1)"
    by (cases "print_menu 1 (sort_key fst commands) (print MenuHeader w)")
  then have s1: "stdin w1 = stdin w"
    using print_menu_stdin [OF m] by (simp add: print_def)
  obtain y w2 where i: "input MenuPrompt w1 = (y, w2)"
    by (cases "input MenuPrompt w1")
  show ?case
  proof (cases x)
    case (Inl e)
    with "1.prems" m show ?thesis
      by (simp add: choose_command.simps [of commands w])
  next
    case (Inr u)
    note xu = this
    show ?thesis
    proof (cases y)
      case (Inl e)
      with "1.prems" m i xu show ?thesis
        by (simp add: choose_command.simps [of commands w])
    next
      case (Inr line)
      note yl = this
      from i yl have s2: "length (stdin w2) < length (stdin w1)"
        using input_consumes [of MenuPrompt w1 line w2] by simp
      show ?thesis
      proof (cases "strip line = []")
        case True
        with "1.prems" m i xu yl s1 s2 show ?thesis
          by (simp add: choose_command.simps [of commands w])
      next
        case False
        note ne = this
        show ?thesis
        proof (cases "py_int (strip line)")
          case None
          with "1.prems" m i xu yl ne
          have "choose_command commands (print NotANumberNotice w2) = (Inr r, w')"
            by (simp add: choose_command.simps [of commands w])
          with "1.IH"(1) [OF m [symmetric] xu i [symmetric] yl ne None]
          have "length (stdin w') < length (stdin (print NotANumberNotice w2))" .
          with s1 s2 show ?thesis by (simp add: print_def)
        next
          case (Some idx)
          show ?thesis
          proof (cases "1 \<le> idx \<and> idx \<le> int (length commands)")
            case True
            with "1.prems" m i xu yl ne Some s1 s2 show ?thesis
              by (simp add: choose_command.simps [of commands w])
          next
            case False
            with "1.prems" m i xu yl ne Some
            have "choose_command commands (print WrongNumberNotice w2) = (Inr r, w')"
              by (simp add: choose_command.simps [of commands w])
            with "1.IH"(2) [OF m [symmetric] xu i [symmetric] yl ne Some False]
            have "length (stdin w') < length (stdin (print WrongNumberNotice w2))" .
            with s1 s2 show ?thesis by (simp add: print_def)
          qed
        qed
      qed
    qed
  qed
qed

text \<open>
  The \<^verbatim>\<open>while True\<close> loop of \<^verbatim>\<open>main\<close>. Nothing in it catches an exception:
  whatever \<^verbatim>\<open>choose_command\<close> or \<^verbatim>\<open>run_command\<close> raises leaves the loop and
  \<^verbatim>\<open>main\<close>, and ends the process.
\<close>

function main_loop ::
    "(pystr \<times> pyval) list \<Rightarrow> pystr \<Rightarrow> pystr \<Rightarrow> network \<Rightarrow> world \<Rightarrow> (exn + unit) \<times> world" where
  "main_loop commands client_id api_key net w =
     (case choose_command commands w of
        (Inl e, w1) \<Rightarrow> (Inl e, w1)
      | (Inr None, w1) \<Rightarrow> (Inr (), print GoodbyeNotice w1)
      | (Inr (Some selected), w1) \<Rightarrow>
          if selected = [] then (Inr (), print GoodbyeNotice w1)
          else
            (case map_of commands selected of
               None \<Rightarrow> (Inl KeyError, w1)
             | Some meta \<Rightarrow>
                 (case run_command selected meta client_id api_key net w1 of
                    (Inl e, w2) \<Rightarrow> (Inl e, w2)
                  | (Inr u, w2) \<Rightarrow> main_loop commands client_id api_key net w2)))"
  by pat_completeness auto
termination
proof (relation "measure (\<lambda>(commands, client_id, api_key, net, w). length (stdin w))")
  show "wf (measure (\<lambda>(commands, client_id, api_key, net, w). length (stdin w)))"
    by simp
next
  fix commands :: "(pystr \<times> pyval) list" and client_id api_key :: pystr and net :: network
    and w x w1 sel selected meta y w2 u
  assume "(x, w1) = choose_command commands w" and "x = Inr sel"
    and "(y, w2) = run_command selected meta client_id api_key net w1"
  then have "length (stdin w2) < length (stdin w)"
    using choose_command_consumes [of commands w sel w1]
      run_command_stdin [of selected meta client_id api_key net w1 y w2]
    by simp
  then show "((commands, client_id, api_key, net, w2), (commands, client_id, api_key, net, w))
      \<in> measure (\<lambda>(commands, client_id, api_key, net, w). length (stdin w))"
    by simp
qed

declare main_loop.simps [simp del]

definition main :: "network \<Rightarrow> world \<Rightarrow> (exn + unit) \<times> world" where
  "main net w =
     (case input ClientIdPrompt (print Banner w) of
        (Inl e, w1) \<Rightarrow> (Inl e, w1)
      | (Inr line1, w1) \<Rightarrow>
          (case input ApiKeyPrompt w1 of
             (Inl e, w2) \<Rightarrow> (Inl e, w2)
           | (Inr line2, w2) \<Rightarrow>
               (let client_id = strip line1; api_key = strip line2 in
                if client_id = [] \<or> api_key = []
                then (Inl (SystemExit 1), print CredentialsRequiredNotice w2)
                else if \<not> verify_credentials client_id api_key net
                then (Inl (SystemExit 1), print KeyRejectedNotice (print CheckingKeysNotice w2))
                else if COMMANDS = []
                then (Inl (SystemExit 1),
                      print NoCommandsNotice
                        (print KeyConfirmedNotice (print CheckingKeysNotice w2)))
                else main_loop COMMANDS client_id api_key net
                       (print KeyConfirmedNotice (print CheckingKeysNotice w2)))))"

section \<open>Properties of the payload builder\<close>

text \<open>The definitions that evaluate text and numbers on a given input.\<close>

lemmas text_simps = ustr_def dict_get_def dict_get_or_def
lemmas number_simps = py_int_def py_float_def strip_def isspace_def digits_value_def
  is_digit_def lower_def lower_cp_def parse_decimal_def parse_mantissa_def
  parse_exponent_def scale10_def count_digits_def to_ascii_def ascii_of_def c_strip_def
  c_isspace_def to_binary64_ordinary

lemmas json_simps = json_loads_def skip_ws_def json_ws_def scan_atom_def starts_with_def
  scan_number_def scan_int_part_def scan_frac_def scan_exp_def

text \<open>What the object builder returns, when it returns, is a dict.\<close>

lemma object_loop_dict:
  "object_loop required props result w = (Inr v, w') \<Longrightarrow> \<exists>res. v = PDict res"
proof (induction props arbitrary: result w)
  case Nil
  then show ?case by auto
next
  case (Cons p props)
  obtain key ps where p: "p = (key, ps)" by (cases p)
  from Cons.prems Cons.IH show ?case
    unfolding p
    by (auto simp: Let_def split: pyval.splits prod.splits sum.splits bool.splits)
qed

lemma prompt_for_object_dict:
  "prompt_for_object schema w = (Inr v, w') \<Longrightarrow> \<exists>res. v = PDict res"
  by (auto simp: prompt_for_object.simps [of schema w]
        split: pyval.splits sum.splits dest: object_loop_dict)

text \<open>One round of the array loop, and the loop over lines that are kept as they are.\<close>

lemma array_loop_step:
  "stdin w = line # rest \<Longrightarrow> strip line \<noteq> [] \<Longrightarrow>
   array_loop item_schema vs w
     = (case convert_primitive (strip line) item_schema
               (w\<lparr>stdin := rest, stdout := stdout w @ [ElementPrompt]\<rparr>) of
          (Inl e, w'') \<Rightarrow> (Inl e, w'')
        | (Inr v, w'') \<Rightarrow> array_loop item_schema (vs @ [v]) w'')"
  using array_loop.simps [of item_schema vs w]
  by (cases w) (simp add: input_def print_def)

lemma array_loop_stop:
  "stdin w = line # rest \<Longrightarrow> strip line = [] \<Longrightarrow>
   array_loop item_schema vs w
     = (Inr vs, w\<lparr>stdin := rest, stdout := stdout w @ [ElementPrompt]\<rparr>)"
  using array_loop.simps [of item_schema vs w]
  by (cases w) (simp add: input_def print_def)

lemma untyped_leaf:
  "dict_get i (ustr ''type'') = PStr (ustr ''object'') \<or> dict_get i (ustr ''type'') = PStr (ustr ''array'')
   \<Longrightarrow> \<not> truthy (dict_get i (ustr ''enum'')) \<Longrightarrow> raw \<noteq> [] \<Longrightarrow>
   convert_primitive raw (PDict i) w = (Inr (PStr raw), w)"
  by (auto simp: convert_primitive_def ustr_def)

lemma array_loop_strings:
  assumes "dict_get i (ustr ''type'') = PStr (ustr ''object'') \<or> dict_get i (ustr ''type'') = PStr (ustr ''array'')"
    and "\<not> truthy (dict_get i (ustr ''enum''))"
    and "\<forall>l \<in> set ls. strip l \<noteq> []" and "strip e = []"
  shows "array_loop (PDict i) vs \<lparr>stdin = ls @ e # rest, stdout = out\<rparr>
     = (Inr (vs @ map (\<lambda>l. PStr (strip l)) ls),
        \<lparr>stdin = rest, stdout = out @ replicate (Suc (length ls)) ElementPrompt\<rparr>)"
  using assms(3)
proof (induction ls arbitrary: vs out)
  case Nil
  show ?case
    using array_loop_stop [of "\<lparr>stdin = e # rest, stdout = out\<rparr>" e rest "PDict i" vs] assms(4)
    by simp
next
  case (Cons l ls)
  then have ne: "strip l \<noteq> []" and rest: "\<forall>l \<in> set ls. strip l \<noteq> []"
    by simp_all
  have "array_loop (PDict i) vs \<lparr>stdin = (l # ls) @ e # rest, stdout = out\<rparr>
      = array_loop (PDict i) (vs @ [PStr (strip l)])
          \<lparr>stdin = ls @ e # rest, stdout = out @ [ElementPrompt]\<rparr>"
    using array_loop_step [of "\<lparr>stdin = (l # ls) @ e # rest, stdout = out\<rparr>" l "ls @ e # rest"
        "PDict i" vs] ne untyped_leaf [OF assms(1) assms(2) ne]
    by simp
  also have "\<dots> = (Inr ((vs @ [PStr (strip l)]) @ map (\<lambda>l. PStr (strip l)) ls),
        \<lparr>stdin = rest, stdout = (out @ [ElementPrompt]) @ replicate (Suc (length ls)) ElementPrompt\<rparr>)"
    by (rule Cons.IH [OF rest])
  finally show ?case by (simp add: replicate_append_same)
qed

text \<open>The keys of the dict that the loop over the properties builds.\<close>

lemma dict_set_keys: "fst ` set (dict_set r k v) = insert k (fst ` set r)"
proof (induction r)
  case Nil
  show ?case by simp
next
  case (Cons p r)
  obtain k' v' where p: "p = (k', v')" by (cases p)
  show ?case
  proof (cases "k' = k")
    case True
    with p show ?thesis by simp
  next
    case False
    with p Cons.IH show ?thesis by (simp add: insert_commute)
  qed
qed

lemma fill_choice_required: "fill_choice True title w = (Inr True, w)"
  by (simp add: fill_choice_def)

lemma object_loop_keys:
  "object_loop required props result w = (Inr (PDict res), w') \<Longrightarrow>
   fst ` set res \<subseteq> fst ` set result \<union> fst ` set props
   \<and> fst ` set result \<subseteq> fst ` set res
   \<and> (\<forall>k \<in> fst ` set props. PStr k \<in> set required \<longrightarrow> k \<in> fst ` set res)"
proof (induction props arbitrary: result w)
  case Nil
  then show ?case by simp
next
  case (Cons p props)
  obtain key ps where p: "p = (key, ps)" by (cases p)
  show ?case
  proof (cases ps)
    case (PDict psd)
    define title where "title = (if truthy (dict_get psd (ustr ''description''))
                        then dict_get psd (ustr ''description'') else PStr key)"
    obtain c w1 where f: "fill_choice (PStr key \<in> set required) title w = (c, w1)"
      by (cases "fill_choice (PStr key \<in> set required) title w")
    show ?thesis
    proof (cases c)
      case (Inl e)
      with Cons.prems p PDict f show ?thesis
        by (simp add: Let_def title_def)
    next
      case (Inr b)
      show ?thesis
      proof (cases b)
        case False
        with f Inr have nr: "PStr key \<notin> set required"
          using fill_choice_required [of title w] by auto
        from False Cons.prems p PDict f Inr
        have "object_loop required props result w1 = (Inr (PDict res), w')"
          by (simp add: Let_def title_def)
        from Cons.IH [OF this] nr show ?thesis
          unfolding p by auto
      next
        case True
        obtain y w2 where v: "prompt_for_value title ps w1 = (y, w2)"
          by (cases "prompt_for_value title ps w1")
        show ?thesis
        proof (cases y)
          case (Inl e)
          with Cons.prems p PDict f \<open>c = Inr b\<close> True v show ?thesis
            by (simp add: Let_def title_def)
        next
          case (Inr val)
          with Cons.prems p PDict f \<open>c = Inr b\<close> True v
          have "object_loop required props (dict_set result key val) w2 = (Inr (PDict res), w')"
            by (simp add: Let_def title_def)
          from Cons.IH [OF this] show ?thesis
            unfolding p by (auto simp: dict_set_keys)
        qed
      qed
    qed
  qed (use Cons.prems p in auto)
qed

lemma object_loop_append:
  "object_loop required pre result w = (Inr (PDict r1), w1) \<Longrightarrow>
   object_loop required (pre @ post) result w = object_loop required post r1 w1"
proof (induction pre arbitrary: result w)
  case Nil
  then show ?case by simp
next
  case (Cons p pre)
  obtain key ps where p: "p = (key, ps)" by (cases p)
  from Cons.prems Cons.IH show ?case
    unfolding p
    by (auto simp: Let_def split: pyval.splits prod.splits sum.splits bool.splits)
qed

lemma object_loop_decline:
  "PStr key \<notin> set required \<Longrightarrow> stdin w = line # ls \<Longrightarrow> lower (strip line) \<notin> set affirmative \<Longrightarrow>
   object_loop required ((key, PDict ps) # post) result w
     = object_loop required post result
         (w\<lparr>stdin := ls,
            stdout := stdout w @ [OptionalPrompt (if truthy (dict_get ps (ustr ''description''))
                                                  then dict_get ps (ustr ''description'')
                                                  else PStr key)]\<rparr>)"
  by (cases w) (simp add: fill_choice_def input_def print_def Let_def)



text \<open>
  Claim C6 says that the text \<open>42\<close> under every integer leaf gives the integer 42.
  The enum is looked at before the type: at an integer leaf that also has an enum the
  text comes back as it is, a string.
\<close>

theorem integer_with_enum_counterexample:
  "convert_primitive (ustr ''42'')
     (PDict [(ustr ''type'', PStr (ustr ''integer'')),
             (ustr ''enum'', PList [PStr (ustr ''42''), PStr (ustr ''43'')])])
     \<lparr>stdin = [], stdout = []\<rparr>
   = (Inr (PStr (ustr ''42'')), \<lparr>stdin = [], stdout = []\<rparr>)"
  by (simp add: convert_primitive_def text_simps str_join_def)

text \<open>
  Claim C6, as amended. For every numeric leaf without a non-empty enum, the text
  (when it is not empty, or when the leaf has no default) is read by \<^verbatim>\<open>int\<close> under
  type \<open>integer\<close> and by \<^verbatim>\<open>float\<close> under type \<open>number\<close>: the result is the number
  read, or their \<^verbatim>\<open>ValueError\<close>. So \<open>42\<close> gives the integer 42 and \<open>3.14\<close> gives
  the float 3.14. For every leaf, the empty text with a default that is not
  \<^verbatim>\<open>None\<close> gives the default as the catalog has it, whatever its type: no
  conversion is applied to it.
\<close>

theorem numeric_coercion:
  "(dict_get d (ustr ''type'') = PStr (ustr ''integer'') \<and> \<not> truthy (dict_get d (ustr ''enum''))
      \<and> (raw \<noteq> [] \<or> dict_get d (ustr ''default'') = PNone) \<longrightarrow>
    convert_primitive raw (PDict d) w
      = (case py_int raw of None \<Rightarrow> Inl ValueError | Some n \<Rightarrow> Inr (PInt n), w))
   \<and> (dict_get d (ustr ''type'') = PStr (ustr ''number'') \<and> \<not> truthy (dict_get d (ustr ''enum''))
      \<and> (raw \<noteq> [] \<or> dict_get d (ustr ''default'') = PNone) \<longrightarrow>
    convert_primitive raw (PDict d) w
      = (case py_float raw of None \<Rightarrow> Inl ValueError | Some f \<Rightarrow> Inr (PFloat f), w))
   \<and> (dict_get d (ustr ''default'') \<noteq> PNone \<longrightarrow>
        convert_primitive [] (PDict d) w = (Inr (dict_get d (ustr ''default'')), w))
   \<and> py_int (ustr ''42'') = Some 42
   \<and> py_float (ustr ''3.14'') = Some (Finite (314 / 100))"
proof -
  have a: "dict_get d (ustr ''type'') = PStr (ustr ''integer'') \<and> \<not> truthy (dict_get d (ustr ''enum''))
      \<and> (raw \<noteq> [] \<or> dict_get d (ustr ''default'') = PNone) \<longrightarrow>
    convert_primitive raw (PDict d) w
      = (case py_int raw of None \<Rightarrow> Inl ValueError | Some n \<Rightarrow> Inr (PInt n), w)"
    by (auto simp: convert_primitive_def split: option.splits)
  have b: "dict_get d (ustr ''type'') = PStr (ustr ''number'') \<and> \<not> truthy (dict_get d (ustr ''enum''))
      \<and> (raw \<noteq> [] \<or> dict_get d (ustr ''default'') = PNone) \<longrightarrow>
    convert_primitive raw (PDict d) w
      = (case py_float raw of None \<Rightarrow> Inl ValueError | Some f \<Rightarrow> Inr (PFloat f), w)"
    by (auto simp: convert_primitive_def ustr_def split: option.splits)
  have c: "dict_get d (ustr ''default'') \<noteq> PNone \<longrightarrow>
        convert_primitive [] (PDict d) w = (Inr (dict_get d (ustr ''default'')), w)"
    by (simp add: convert_primitive_def)
  have i: "py_int (ustr ''42'') = Some 42"
    by (simp add: number_simps ustr_def)
  have f: "py_float (ustr ''3.14'') = Some (Finite (314 / 100))"
    by (simp add: number_simps ustr_def)
  from a b c i f show ?thesis by blast
qed

text \<open>
  An integer leaf with a description: \<open>42\<close> and \<open>-7\<close> are read, \<open>4x\<close> raises. A
  number leaf with an empty enum: \<open>3.14\<close> is read. The default 100 of an integer
  leaf comes back as the integer, and a default that is the string \<open>100\<close> comes back
  as that string.
\<close>

theorem numeric_coercion_witness:
  "convert_primitive (ustr ''42'')
       (PDict [(ustr ''description'', PStr (ustr ''Page size'')),
               (ustr ''type'', PStr (ustr ''integer''))])
       \<lparr>stdin = [], stdout = []\<rparr>
     = (Inr (PInt 42), \<lparr>stdin = [], stdout = []\<rparr>)
   \<and> convert_primitive (ustr ''-7'')
       (PDict [(ustr ''description'', PStr (ustr ''Page size'')),
               (ustr ''type'', PStr (ustr ''integer''))])
       \<lparr>stdin = [], stdout = []\<rparr>
     = (Inr (PInt (- 7)), \<lparr>stdin = [], stdout = []\<rparr>)
   \<and> convert_primitive (ustr ''4x'')
       (PDict [(ustr ''description'', PStr (ustr ''Page size'')),
               (ustr ''type'', PStr (ustr ''integer''))])
       \<lparr>stdin = [], stdout = []\<rparr>
     = (Inl ValueError, \<lparr>stdin = [], stdout = []\<rparr>)
   \<and> convert_primitive (ustr ''3.14'')
       (PDict [(ustr ''type'', PStr (ustr ''number'')), (ustr ''enum'', PList [])])
       \<lparr>stdin = [], stdout = []\<rparr>
     = (Inr (PFloat (Finite (314 / 100))), \<lparr>stdin = [], stdout = []\<rparr>)
   \<and> convert_primitive []
       (PDict [(ustr ''type'', PStr (ustr ''integer'')), (ustr ''default'', PInt 100)])
       \<lparr>stdin = [], stdout = []\<rparr>
     = (Inr (PInt 100), \<lparr>stdin = [], stdout = []\<rparr>)
   \<and> convert_primitive []
       (PDict [(ustr ''type'', PStr (ustr ''integer'')), (ustr ''default'', PStr (ustr ''100''))])
       \<lparr>stdin = [], stdout = []\<rparr>
     = (Inr (PStr (ustr ''100'')), \<lparr>stdin = [], stdout = []\<rparr>)"
proof -
  let ?w = "\<lparr>stdin = [], stdout = []\<rparr>"
  let ?int = "[(ustr ''description'', PStr (ustr ''Page size'')),
               (ustr ''type'', PStr (ustr ''integer''))]"
  let ?num = "[(ustr ''type'', PStr (ustr ''number'')), (ustr ''enum'', PList [])]"
  let ?d100 = "[(ustr ''type'', PStr (ustr ''integer'')), (ustr ''default'', PInt 100)]"
  let ?ds = "[(ustr ''type'', PStr (ustr ''integer'')), (ustr ''default'', PStr (ustr ''100''))]"
  have ne: "ustr ''42'' \<noteq> []" "ustr ''-7'' \<noteq> []" "ustr ''4x'' \<noteq> []" "ustr ''3.14'' \<noteq> []"
    by (simp_all add: ustr_def)
  have hi: "dict_get ?int (ustr ''type'') = PStr (ustr ''integer'')
      \<and> \<not> truthy (dict_get ?int (ustr ''enum''))"
    by (simp add: text_simps)
  have hn: "dict_get ?num (ustr ''type'') = PStr (ustr ''number'')
      \<and> \<not> truthy (dict_get ?num (ustr ''enum''))"
    by (simp add: text_simps)
  have hd: "dict_get ?d100 (ustr ''default'') = PInt 100"
    "dict_get ?ds (ustr ''default'') = PStr (ustr ''100'')"
    by (simp_all add: text_simps)
  have p: "py_int (ustr ''-7'') = Some (- 7)" "py_int (ustr ''4x'') = None"
    by (simp_all add: number_simps ustr_def)
  note t = numeric_coercion
  have 1: "convert_primitive (ustr ''42'') (PDict ?int) ?w
      = (case py_int (ustr ''42'') of None \<Rightarrow> Inl ValueError | Some n \<Rightarrow> Inr (PInt n), ?w)"
    by (rule t [THEN conjunct1, rule_format]) (simp add: hi ne)
  have 2: "convert_primitive (ustr ''-7'') (PDict ?int) ?w
      = (case py_int (ustr ''-7'') of None \<Rightarrow> Inl ValueError | Some n \<Rightarrow> Inr (PInt n), ?w)"
    by (rule t [THEN conjunct1, rule_format]) (simp add: hi ne)
  have 3: "convert_primitive (ustr ''4x'') (PDict ?int) ?w
      = (case py_int (ustr ''4x'') of None \<Rightarrow> Inl ValueError | Some n \<Rightarrow> Inr (PInt n), ?w)"
    by (rule t [THEN conjunct1, rule_format]) (simp add: hi ne)
  have 4: "convert_primitive (ustr ''3.14'') (PDict ?num) ?w
      = (case py_float (ustr ''3.14'') of None \<Rightarrow> Inl ValueError | Some f \<Rightarrow> Inr (PFloat f), ?w)"
    by (rule t [THEN conjunct2, THEN conjunct1, rule_format]) (simp add: hn ne)
  have 5: "convert_primitive [] (PDict ?d100) ?w = (Inr (dict_get ?d100 (ustr ''default'')), ?w)"
    by (rule t [THEN conjunct2, THEN conjunct2, THEN conjunct1, rule_format]) (simp add: hd)
  have 6: "convert_primitive [] (PDict ?ds) ?w = (Inr (dict_get ?ds (ustr ''default'')), ?w)"
    by (rule t [THEN conjunct2, THEN conjunct2, THEN conjunct1, rule_format]) (simp add: hd)
  have i: "py_int (ustr ''42'') = Some 42"
    by (rule t [THEN conjunct2, THEN conjunct2, THEN conjunct2, THEN conjunct1])
  have f: "py_float (ustr ''3.14'') = Some (Finite (314 / 100))"
    by (rule t [THEN conjunct2, THEN conjunct2, THEN conjunct2, THEN conjunct2])
  from 1 2 3 4 5 6 show ?thesis
    by (simp add: i f p hd)
qed

text \<open>
  Claim C10. A schema that is the empty dict is handled as no schema at all: the
  operator is asked for a raw JSON body with the same prompt, and the object builder
  is not entered.
\<close>

theorem empty_schema_is_no_schema:
  "prompt_for_payload (PDict []) w = prompt_for_payload PNone w
   \<and> prompt_for_payload (PDict []) w = read_json_body RawJsonOrEmptyPrompt w"
  by (simp add: prompt_for_payload_def)

text \<open>
  Claim C1 says that a numeric field whose text is not a number only ends the current
  operation: a message is printed and the operator is back at the menu. In the
  program the payload is built outside every \<^verbatim>\<open>try\<close>. With the catalog as it is
  and a service that accepts the keys, the operator picks operation 2
  (\<^verbatim>\<open>v3/supply-order/get\<close>) and types \<open>abc\<close> as the first order id: \<^verbatim>\<open>main\<close> ends
  with the \<^verbatim>\<open>ValueError\<close> of \<^verbatim>\<open>int\<close>, and the last thing written is the prompt
  for the element, neither a message nor the menu.
\<close>

theorem malformed_number_ends_session:
  "fst (main (\<lambda>r. Reply 200 (JsonBody (PDict [])))
          \<lparr>stdin = [ustr ''id'', ustr ''key'', ustr ''2'', ustr ''abc''], stdout = []\<rparr>)
     = Inl ValueError
   \<and> last (stdout (snd (main (\<lambda>r. Reply 200 (JsonBody (PDict [])))
          \<lparr>stdin = [ustr ''id'', ustr ''key'', ustr ''2'', ustr ''abc''], stdout = []\<rparr>)))
     = ElementPrompt"
proof -
  have sorted_commands: "sort_key fst COMMANDS = COMMANDS"
    by (simp add: COMMANDS_def ustr_def)
  show ?thesis
    by (simp add: main_def main_loop.simps choose_command.simps sorted_commands run_command_def
        prompt_for_payload_def prompt_for_object.simps prompt_for_value.simps array_loop.simps
        convert_primitive_def fill_choice_def py_set_def verify_credentials_def
        COMMANDS_def supply_order_get_schema_def input_def print_def text_simps number_simps
        Let_def)
qed

text \<open>
  Claim C3 says that a leaf with a non-empty enum never gets its default. The program
  tests the default first: at a leaf with enum \<open>A, B\<close> and default \<open>A\<close> the empty
  text gives \<open>A\<close>, the operator is not asked again and the waiting line \<open>B\<close> is not
  read.
\<close>

theorem default_wins_over_enum_counterexample:
  "convert_primitive []
     (PDict [(ustr ''enum'', PList [PStr (ustr ''A''), PStr (ustr ''B'')]),
             (ustr ''default'', PStr (ustr ''A''))])
     \<lparr>stdin = [ustr ''B''], stdout = []\<rparr>
   = (Inr (PStr (ustr ''A'')), \<lparr>stdin = [ustr ''B''], stdout = []\<rparr>)"
  by (simp add: convert_primitive_def text_simps)

text \<open>
  Claim C3, as amended. On empty text the default is tested first, with or without an
  enum: a default that is not \<^verbatim>\<open>None\<close> is returned at once. Only when the default
  is absent or \<^verbatim>\<open>None\<close> does a non-empty enum take the empty text: the operator is
  asked once more, with the allowed values joined by a comma, and the line entered
  then is returned, stripped.
\<close>

theorem default_checked_first:
  "(dict_get d (ustr ''default'') \<noteq> PNone \<longrightarrow>
      convert_primitive [] (PDict d) w = (Inr (dict_get d (ustr ''default'')), w))
   \<and> (dict_get d (ustr ''default'') = PNone \<and> truthy (dict_get d (ustr ''enum''))
        \<and> str_join (ustr '', '') (dict_get d (ustr ''enum'')) = Inr options
        \<and> stdin w = line # rest \<longrightarrow>
      convert_primitive [] (PDict d) w
        = (Inr (PStr (strip line)),
           w\<lparr>stdin := rest, stdout := stdout w @ [EnumPrompt options]\<rparr>))"
  by (simp add: convert_primitive_def input_def print_def)

theorem default_checked_first_witness:
  "dict_get [(ustr ''enum'', PList [PStr (ustr ''A''), PStr (ustr ''B'')]),
             (ustr ''default'', PInt 7)] (ustr ''default'') \<noteq> PNone
   \<and> convert_primitive []
        (PDict [(ustr ''enum'', PList [PStr (ustr ''A''), PStr (ustr ''B'')]),
                (ustr ''default'', PInt 7)])
        \<lparr>stdin = [ustr ''B''], stdout = []\<rparr>
      = (Inr (PInt 7), \<lparr>stdin = [ustr ''B''], stdout = []\<rparr>)
   \<and> dict_get [(ustr ''enum'', PList [PStr (ustr ''A''), PStr (ustr ''B'')])] (ustr ''default'') = PNone
   \<and> truthy (dict_get [(ustr ''enum'', PList [PStr (ustr ''A''), PStr (ustr ''B'')])] (ustr ''enum''))
   \<and> str_join (ustr '', '')
        (dict_get [(ustr ''enum'', PList [PStr (ustr ''A''), PStr (ustr ''B'')])] (ustr ''enum''))
      = Inr (ustr ''A, B'')
   \<and> convert_primitive []
        (PDict [(ustr ''enum'', PList [PStr (ustr ''A''), PStr (ustr ''B'')])])
        \<lparr>stdin = [ustr '' b ''], stdout = []\<rparr>
      = (Inr (PStr (ustr ''b'')), \<lparr>stdin = [], stdout = [EnumPrompt (ustr ''A, B'')]\<rparr>)"
  using default_checked_first
          [of "[(ustr ''enum'', PList [PStr (ustr ''A''), PStr (ustr ''B'')]),
                (ustr ''default'', PInt 7)]"
              "\<lparr>stdin = [ustr ''B''], stdout = []\<rparr>"]
        default_checked_first
          [of "[(ustr ''enum'', PList [PStr (ustr ''A''), PStr (ustr ''B'')])]"
              "\<lparr>stdin = [ustr '' b ''], stdout = []\<rparr>" "ustr ''A, B''" "ustr '' b ''" "[]"]
  by (simp add: text_simps str_join_def strip_def isspace_def)

text \<open>
  Claim C4 says that the payload is always a mapping. With no schema the operator
  types the body, and the program returns whatever \<^verbatim>\<open>json.loads\<close> makes of it: the
  text \<open>[1]\<close> gives a list.
\<close>

theorem raw_json_list_counterexample:
  "prompt_for_payload PNone \<lparr>stdin = [ustr ''[1]''], stdout = []\<rparr>
   = (Inr (PList [PInt 1]), \<lparr>stdin = [], stdout = [RawJsonOrEmptyPrompt]\<rparr>)"
  by (simp add: prompt_for_payload_def read_json_body_def input_def print_def json_simps
      ustr_def is_digit_def digits_value_def)

text \<open>
  Claim C4, as amended. With no schema (\<^verbatim>\<open>None\<close>, or any schema that is false as a
  condition) and with a schema whose type is not \<open>object\<close>, the operator is asked
  for the body: an empty line gives the empty mapping, and any other line is parsed
  as JSON and the parsed value is the payload, of whatever JSON type it is, or the
  parse error is raised. With a schema of type \<open>object\<close> a payload that is returned
  is a mapping.
\<close>

theorem payload_shape:
  "(\<not> truthy schema \<and> stdin w = line # rest \<longrightarrow>
      prompt_for_payload schema w
        = (if line = [] then Inr (PDict []) else json_loads line,
           w\<lparr>stdin := rest, stdout := stdout w @ [RawJsonOrEmptyPrompt]\<rparr>))
   \<and> (truthy (PDict d) \<and> dict_get d (ustr ''type'') \<noteq> PStr (ustr ''object'')
        \<and> stdin w = line # rest \<longrightarrow>
      prompt_for_payload (PDict d) w
        = (if line = [] then Inr (PDict []) else json_loads line,
           w\<lparr>stdin := rest, stdout := stdout w @ [RawJsonPrompt]\<rparr>))
   \<and> (dict_get d (ustr ''type'') = PStr (ustr ''object'')
        \<and> prompt_for_payload (PDict d) w = (Inr payload, w') \<longrightarrow>
      (\<exists>res. payload = PDict res))"
proof -
  have a: "\<not> truthy schema \<and> stdin w = line # rest \<longrightarrow>
      prompt_for_payload schema w
        = (if line = [] then Inr (PDict []) else json_loads line,
           w\<lparr>stdin := rest, stdout := stdout w @ [RawJsonOrEmptyPrompt]\<rparr>)"
    by (simp add: prompt_for_payload_def read_json_body_def input_def print_def)
  have b: "truthy (PDict d) \<and> dict_get d (ustr ''type'') \<noteq> PStr (ustr ''object'')
        \<and> stdin w = line # rest \<longrightarrow>
      prompt_for_payload (PDict d) w
        = (if line = [] then Inr (PDict []) else json_loads line,
           w\<lparr>stdin := rest, stdout := stdout w @ [RawJsonPrompt]\<rparr>)"
    by (simp add: prompt_for_payload_def read_json_body_def input_def print_def)
  have c: "dict_get d (ustr ''type'') = PStr (ustr ''object'')
        \<and> prompt_for_payload (PDict d) w = (Inr payload, w') \<longrightarrow>
      (\<exists>res. payload = PDict res)"
    by (auto simp: prompt_for_payload_def read_json_body_def input_def dict_get_def
          dict_get_or_def split: if_splits list.splits dest: prompt_for_object_dict)
  from a b c show ?thesis by blast
qed

text \<open>
  The body \<open>{"a": 1}\<close> (written by its code points) and the empty line, with no
  schema; the body \<open>{}\<close> under a schema of type array; and an object schema
  without properties.
\<close>

theorem payload_shape_witness:
  "\<not> truthy PNone
   \<and> prompt_for_payload PNone \<lparr>stdin = [[123, 34, 97, 34, 58, 32, 49, 125]], stdout = []\<rparr>
      = (Inr (PDict [(ustr ''a'', PInt 1)]), \<lparr>stdin = [], stdout = [RawJsonOrEmptyPrompt]\<rparr>)
   \<and> prompt_for_payload PNone \<lparr>stdin = [[]], stdout = []\<rparr>
      = (Inr (PDict []), \<lparr>stdin = [], stdout = [RawJsonOrEmptyPrompt]\<rparr>)
   \<and> truthy (PDict [(ustr ''type'', PStr (ustr ''array''))])
   \<and> dict_get [(ustr ''type'', PStr (ustr ''array''))] (ustr ''type'') \<noteq> PStr (ustr ''object'')
   \<and> prompt_for_payload (PDict [(ustr ''type'', PStr (ustr ''array''))])
        \<lparr>stdin = [ustr ''{}''], stdout = []\<rparr>
      = (Inr (PDict []), \<lparr>stdin = [], stdout = [RawJsonPrompt]\<rparr>)
   \<and> dict_get [(ustr ''type'', PStr (ustr ''object''))] (ustr ''type'') = PStr (ustr ''object'')
   \<and> prompt_for_payload (PDict [(ustr ''type'', PStr (ustr ''object''))])
        \<lparr>stdin = [], stdout = []\<rparr>
      = (Inr (PDict []), \<lparr>stdin = [], stdout = [FillFieldsNotice]\<rparr>)
   \<and> (\<exists>res. PDict [] = PDict res)"
proof -
  have l: "json_loads [123, 34, 97, 34, 58, 32, 49, 125] = Inr (PDict [(ustr ''a'', PInt 1)])"
    by (simp add: json_simps ustr_def is_digit_def digits_value_def)
  have e: "json_loads (ustr ''{}'') = Inr (PDict [])"
    by (simp add: json_simps ustr_def)
  have o: "prompt_for_payload (PDict [(ustr ''type'', PStr (ustr ''object''))])
        \<lparr>stdin = [], stdout = []\<rparr>
      = (Inr (PDict []), \<lparr>stdin = [], stdout = [FillFieldsNotice]\<rparr>)"
    by (simp add: prompt_for_payload_def prompt_for_object.simps py_set_def print_def text_simps)
  show ?thesis
    using payload_shape [of PNone "\<lparr>stdin = [[123, 34, 97, 34, 58, 32, 49, 125]], stdout = []\<rparr>"
            "[123, 34, 97, 34, 58, 32, 49, 125]" "[]"]
          payload_shape [of PNone "\<lparr>stdin = [[]], stdout = []\<rparr>" "[]" "[]"]
          payload_shape [of _ "\<lparr>stdin = [ustr ''{}''], stdout = []\<rparr>" "ustr ''{}'' " "[]"
            "[(ustr ''type'', PStr (ustr ''array''))]"]
          payload_shape [of _ "\<lparr>stdin = [], stdout = []\<rparr>" _ _
            "[(ustr ''type'', PStr (ustr ''object''))]" "PDict []"
            "\<lparr>stdin = [], stdout = [FillFieldsNotice]\<rparr>"]
          l e o
    by (simp add: text_simps)
qed

text \<open>
  Claim C9 says that every boolean leaf gives true or false. The enum is looked at
  before the type: a leaf of type boolean that also has an enum returns the text.
\<close>

theorem boolean_with_enum_counterexample:
  "convert_primitive (ustr ''true'')
     (PDict [(ustr ''type'', PStr (ustr ''boolean'')),
             (ustr ''enum'', PList [PStr (ustr ''true''), PStr (ustr ''false'')])])
     \<lparr>stdin = [], stdout = []\<rparr>
   = (Inr (PStr (ustr ''true'')), \<lparr>stdin = [], stdout = []\<rparr>)"
  by (simp add: convert_primitive_def text_simps str_join_def)

text \<open>
  Claim C9, as amended. For every boolean leaf without a non-empty enum, the result is
  true exactly when the text in lower case is \<open>true\<close>, \<open>1\<close>, \<open>yes\<close>, \<open>y\<close> or
  the Russian \<open>da\<close> (code points 1076, 1072), and false for every other text; the
  empty text is among the others when the leaf has no default. The text is the line
  the operator typed, stripped by \<^verbatim>\<open>prompt_for_value\<close>.
\<close>

theorem boolean_coercion:
  "dict_get d (ustr ''type'') = PStr (ustr ''boolean'') \<and> \<not> truthy (dict_get d (ustr ''enum''))
     \<and> (raw \<noteq> [] \<or> dict_get d (ustr ''default'') = PNone) \<longrightarrow>
   convert_primitive raw (PDict d) w
     = (Inr (PBool (lower raw \<in> {ustr ''true'', ustr ''1'', ustr ''yes'', ustr ''y'', [1076, 1072]})), w)
   \<and> (stdin w = line # rest \<and> strip line = raw \<longrightarrow>
        prompt_for_value name (PDict d) w
          = (Inr (PBool (lower (strip line) \<in>
                     {ustr ''true'', ustr ''1'', ustr ''yes'', ustr ''y'', [1076, 1072]})),
             w\<lparr>stdin := rest, stdout := stdout w @ [ValuePrompt name]\<rparr>))"
  by (auto simp: convert_primitive_def prompt_for_value.simps truthy_tokens_def input_def print_def
      ustr_def)

theorem boolean_coercion_witness:
  "convert_primitive (ustr ''yes'') (PDict [(ustr ''type'', PStr (ustr ''boolean''))])
       \<lparr>stdin = [], stdout = []\<rparr>
     = (Inr (PBool True), \<lparr>stdin = [], stdout = []\<rparr>)
   \<and> prompt_for_value (PStr (ustr ''flag'')) (PDict [(ustr ''type'', PStr (ustr ''boolean''))])
       \<lparr>stdin = [ustr '' Yes ''], stdout = []\<rparr>
     = (Inr (PBool True), \<lparr>stdin = [], stdout = [ValuePrompt (PStr (ustr ''flag''))]\<rparr>)
   \<and> prompt_for_value (PStr (ustr ''flag'')) (PDict [(ustr ''type'', PStr (ustr ''boolean''))])
       \<lparr>stdin = [[]], stdout = []\<rparr>
     = (Inr (PBool False), \<lparr>stdin = [], stdout = [ValuePrompt (PStr (ustr ''flag''))]\<rparr>)"
  using boolean_coercion [of "[(ustr ''type'', PStr (ustr ''boolean''))]" "ustr ''yes''"
          "\<lparr>stdin = [], stdout = []\<rparr>"]
        boolean_coercion [of "[(ustr ''type'', PStr (ustr ''boolean''))]" "ustr ''Yes''"
          "\<lparr>stdin = [ustr '' Yes ''], stdout = []\<rparr>" "ustr '' Yes ''" "[]" "PStr (ustr ''flag'')"]
        boolean_coercion [of "[(ustr ''type'', PStr (ustr ''boolean''))]" "[]"
          "\<lparr>stdin = [[]], stdout = []\<rparr>" "[]" "[]" "PStr (ustr ''flag'')"]
  by (simp add: text_simps strip_def isspace_def lower_def lower_cp_def)

text \<open>
  Claim C7 says that at every enum leaf an empty first answer is followed by one more
  question. At an enum leaf that also has a default the empty answer gives the
  default: the operator presses Enter at the prompt of the field, the result is
  \<open>GREEN\<close>, no second question is written and the next line stays unread.
\<close>

theorem enum_default_counterexample:
  "prompt_for_value (PStr (ustr ''grade''))
     (PDict [(ustr ''type'', PStr (ustr ''string'')),
             (ustr ''enum'', PList [PStr (ustr ''GREEN''), PStr (ustr ''RED'')]),
             (ustr ''default'', PStr (ustr ''GREEN''))])
     \<lparr>stdin = [[], ustr ''RED''], stdout = []\<rparr>
   = (Inr (PStr (ustr ''GREEN'')),
      \<lparr>stdin = [ustr ''RED''], stdout = [ValuePrompt (PStr (ustr ''grade''))]\<rparr>)"
  by (simp add: prompt_for_value.simps convert_primitive_def input_def print_def text_simps
      strip_def)

text \<open>
  Claim C7, as amended. For every enum leaf (the enum a non-empty sequence of
  strings), a non-empty answer is returned exactly as typed, stripped, with no test of
  membership; when the first answer is empty and the leaf has no default that is not
  \<^verbatim>\<open>None\<close>, the operator is asked exactly once more, with the allowed values, and
  the second answer is returned, stripped, even if it is empty again.
\<close>

theorem enum_pass_through:
  "truthy (dict_get d (ustr ''enum''))
     \<and> str_join (ustr '', '') (dict_get d (ustr ''enum'')) = Inr options \<longrightarrow>
   (raw \<noteq> [] \<longrightarrow> convert_primitive raw (PDict d) w = (Inr (PStr raw), w))
   \<and> (dict_get d (ustr ''default'') = PNone \<and> stdin w = second # rest \<longrightarrow>
        convert_primitive [] (PDict d) w
          = (Inr (PStr (strip second)),
             w\<lparr>stdin := rest, stdout := stdout w @ [EnumPrompt options]\<rparr>))
   \<and> (dict_get d (ustr ''type'') \<noteq> PStr (ustr ''object'')
        \<and> dict_get d (ustr ''type'') \<noteq> PStr (ustr ''array'')
        \<and> stdin w = first # rest \<and> strip first \<noteq> [] \<longrightarrow>
        prompt_for_value name (PDict d) w
          = (Inr (PStr (strip first)),
             w\<lparr>stdin := rest, stdout := stdout w @ [ValuePrompt name]\<rparr>))
   \<and> (dict_get d (ustr ''type'') \<noteq> PStr (ustr ''object'')
        \<and> dict_get d (ustr ''type'') \<noteq> PStr (ustr ''array'')
        \<and> dict_get d (ustr ''default'') = PNone
        \<and> stdin w = first # second # rest \<and> strip first = [] \<longrightarrow>
        prompt_for_value name (PDict d) w
          = (Inr (PStr (strip second)),
             w\<lparr>stdin := rest, stdout := stdout w @ [ValuePrompt name, EnumPrompt options]\<rparr>))"
  by (simp add: convert_primitive_def prompt_for_value.simps input_def print_def)

text \<open>
  The enum \<open>GREEN, RED\<close>: the answers \<open>purple\<close> and \<open>Purple\<close> come back as
  they are, and two empty answers give the empty string after one more question.
\<close>

theorem enum_pass_through_witness:
  "truthy (dict_get [(ustr ''type'', PStr (ustr ''string'')),
                     (ustr ''enum'', PList [PStr (ustr ''GREEN''), PStr (ustr ''RED'')])]
             (ustr ''enum''))
   \<and> str_join (ustr '', '')
        (dict_get [(ustr ''type'', PStr (ustr ''string'')),
                   (ustr ''enum'', PList [PStr (ustr ''GREEN''), PStr (ustr ''RED'')])]
           (ustr ''enum''))
      = Inr (ustr ''GREEN, RED'')
   \<and> convert_primitive (ustr ''purple'')
        (PDict [(ustr ''type'', PStr (ustr ''string'')),
                (ustr ''enum'', PList [PStr (ustr ''GREEN''), PStr (ustr ''RED'')])])
        \<lparr>stdin = [], stdout = []\<rparr>
      = (Inr (PStr (ustr ''purple'')), \<lparr>stdin = [], stdout = []\<rparr>)
   \<and> convert_primitive []
        (PDict [(ustr ''type'', PStr (ustr ''string'')),
                (ustr ''enum'', PList [PStr (ustr ''GREEN''), PStr (ustr ''RED'')])])
        \<lparr>stdin = [ustr ''red''], stdout = []\<rparr>
      = (Inr (PStr (ustr ''red'')), \<lparr>stdin = [], stdout = [EnumPrompt (ustr ''GREEN, RED'')]\<rparr>)
   \<and> prompt_for_value (PStr (ustr ''grade''))
        (PDict [(ustr ''type'', PStr (ustr ''string'')),
                (ustr ''enum'', PList [PStr (ustr ''GREEN''), PStr (ustr ''RED'')])])
        \<lparr>stdin = [ustr '' Purple ''], stdout = []\<rparr>
      = (Inr (PStr (ustr ''Purple'')),
         \<lparr>stdin = [], stdout = [ValuePrompt (PStr (ustr ''grade''))]\<rparr>)
   \<and> prompt_for_value (PStr (ustr ''grade''))
        (PDict [(ustr ''type'', PStr (ustr ''string'')),
                (ustr ''enum'', PList [PStr (ustr ''GREEN''), PStr (ustr ''RED'')])])
        \<lparr>stdin = [[], [], ustr ''RED''], stdout = []\<rparr>
      = (Inr (PStr []),
         \<lparr>stdin = [ustr ''RED''],
            stdout = [ValuePrompt (PStr (ustr ''grade'')), EnumPrompt (ustr ''GREEN, RED'')]\<rparr>)"
proof -
  let ?d = "[(ustr ''type'', PStr (ustr ''string'')),
             (ustr ''enum'', PList [PStr (ustr ''GREEN''), PStr (ustr ''RED'')])]"
  have t: "truthy (dict_get ?d (ustr ''enum''))"
    by (simp add: text_simps)
  have j: "str_join (ustr '', '') (dict_get ?d (ustr ''enum'')) = Inr (ustr ''GREEN, RED'')"
    by (simp add: text_simps str_join_def)
  have ty: "dict_get ?d (ustr ''type'') \<noteq> PStr (ustr ''object'')"
    "dict_get ?d (ustr ''type'') \<noteq> PStr (ustr ''array'')"
    "dict_get ?d (ustr ''default'') = PNone"
    by (simp_all add: text_simps)
  have s: "strip (ustr '' Purple '') = ustr ''Purple''" "strip [] = []" "strip (ustr ''red'') = ustr ''red''"
    by (simp_all add: strip_def isspace_def ustr_def)
  have p: "ustr ''purple'' \<noteq> []" "ustr ''Purple'' \<noteq> []"
    by (simp_all add: ustr_def)
  note th = enum_pass_through [of ?d "ustr ''GREEN, RED''"]
  show ?thesis
    using t j
      th [of "ustr ''purple''" "\<lparr>stdin = [], stdout = []\<rparr>"]
      th [of _ "\<lparr>stdin = [ustr ''red''], stdout = []\<rparr>" "ustr ''red''" "[]"]
      th [of _ "\<lparr>stdin = [ustr '' Purple ''], stdout = []\<rparr>" _ "[]" "ustr '' Purple ''"
            "PStr (ustr ''grade'')"]
      th [of _ "\<lparr>stdin = [[], [], ustr ''RED''], stdout = []\<rparr>" "[]" "[ustr ''RED'']" "[]"
            "PStr (ustr ''grade'')"]
    by (simp add: ty s p)
qed

text \<open>
  Claim C2 says that an element of an array whose items are objects is built by the
  object builder and is a mapping. The loop hands the line to \<^verbatim>\<open>convert_primitive\<close>,
  which knows no object: under items of type \<open>object\<close> the line \<open>x\<close> becomes the
  string \<open>x\<close>.
\<close>

theorem array_of_objects_counterexample:
  "prompt_for_value (PStr (ustr ''rows''))
     (PDict [(ustr ''type'', PStr (ustr ''array'')),
             (ustr ''items'', PDict [(ustr ''type'', PStr (ustr ''object''))])])
     \<lparr>stdin = [ustr ''x'', []], stdout = []\<rparr>
   = (Inr (PList [PStr (ustr ''x'')]),
      \<lparr>stdin = [], stdout = [ArrayHeader (PStr (ustr ''rows'')), ElementPrompt, ElementPrompt]\<rparr>)"
  by (simp add: prompt_for_value.simps array_loop.simps convert_primitive_def text_simps
      input_def print_def strip_def isspace_def)

text \<open>
  Claim C2, as amended. For every array schema, each non-empty element line is
  stripped and handed to \<^verbatim>\<open>convert_primitive\<close> with the item schema, never to
  \<^verbatim>\<open>prompt_for_value\<close>: there is no descent into the object or array builder for an
  element. When the item schema has type \<open>object\<close> or \<open>array\<close> (and no enum), the
  array built is the sequence of the stripped lines, as strings, in the order of
  entry up to the first empty line.
\<close>

theorem array_elements_are_primitives:
  "(stdin w = line # rest \<and> strip line \<noteq> [] \<longrightarrow>
      array_loop item_schema vs w
        = (case convert_primitive (strip line) item_schema
                  (w\<lparr>stdin := rest, stdout := stdout w @ [ElementPrompt]\<rparr>) of
             (Inl e, w'') \<Rightarrow> (Inl e, w'')
           | (Inr v, w'') \<Rightarrow> array_loop item_schema (vs @ [v]) w''))
   \<and> (dict_get d (ustr ''type'') = PStr (ustr ''array'')
        \<and> dict_get_or d (ustr ''items'') (PDict []) = PDict i
        \<and> (dict_get i (ustr ''type'') = PStr (ustr ''object'')
             \<or> dict_get i (ustr ''type'') = PStr (ustr ''array''))
        \<and> \<not> truthy (dict_get i (ustr ''enum''))
        \<and> (\<forall>l \<in> set ls. strip l \<noteq> []) \<and> strip stop = [] \<longrightarrow>
      prompt_for_value name (PDict d) \<lparr>stdin = ls @ stop # after, stdout = out\<rparr>
        = (Inr (PList (map (\<lambda>l. PStr (strip l)) ls)),
           \<lparr>stdin = after,
              stdout = out @ ArrayHeader name # replicate (Suc (length ls)) ElementPrompt\<rparr>))"
proof -
  have a: "stdin w = line # rest \<and> strip line \<noteq> [] \<longrightarrow>
      array_loop item_schema vs w
        = (case convert_primitive (strip line) item_schema
                  (w\<lparr>stdin := rest, stdout := stdout w @ [ElementPrompt]\<rparr>) of
             (Inl e, w'') \<Rightarrow> (Inl e, w'')
           | (Inr v, w'') \<Rightarrow> array_loop item_schema (vs @ [v]) w'')"
    using array_loop_step [of w line rest item_schema vs] by blast
  have b: "prompt_for_value name (PDict d) \<lparr>stdin = ls @ stop # after, stdout = out\<rparr>
        = (Inr (PList (map (\<lambda>l. PStr (strip l)) ls)),
           \<lparr>stdin = after,
              stdout = out @ ArrayHeader name # replicate (Suc (length ls)) ElementPrompt\<rparr>)"
    if ty: "dict_get d (ustr ''type'') = PStr (ustr ''array'')"
      and it: "dict_get_or d (ustr ''items'') (PDict []) = PDict i"
      and i1: "dict_get i (ustr ''type'') = PStr (ustr ''object'')
             \<or> dict_get i (ustr ''type'') = PStr (ustr ''array'')"
      and i2: "\<not> truthy (dict_get i (ustr ''enum''))"
      and l: "\<forall>l \<in> set ls. strip l \<noteq> []" and s: "strip stop = []"
  proof -
    have no: "dict_get d (ustr ''type'') \<noteq> PStr (ustr ''object'')"
      using ty by (simp add: ustr_def)
    show ?thesis
      using array_loop_strings [OF i1 i2 l s, of "[]" after "out @ [ArrayHeader name]"] ty it no
      by (simp add: prompt_for_value.simps [of name "PDict d"] print_def)
  qed
  from a b show ?thesis by blast
qed

text \<open>
  An array of integers, where the line \<open>7\<close> is coerced, and an array whose items
  are arrays of integers, where the lines stay strings.
\<close>

theorem array_elements_are_primitives_witness:
  "array_loop (PDict [(ustr ''type'', PStr (ustr ''integer''))]) []
       \<lparr>stdin = [ustr '' 7 '', []], stdout = []\<rparr>
     = (Inr [PInt 7], \<lparr>stdin = [], stdout = [ElementPrompt, ElementPrompt]\<rparr>)
   \<and> prompt_for_value (PStr (ustr ''grid''))
        (PDict [(ustr ''type'', PStr (ustr ''array'')),
                (ustr ''items'', PDict [(ustr ''type'', PStr (ustr ''array'')),
                                        (ustr ''items'', PDict [(ustr ''type'', PStr (ustr ''integer''))])])])
        \<lparr>stdin = [ustr '' 1 '', ustr ''[2]'', [], ustr ''z''], stdout = []\<rparr>
     = (Inr (PList [PStr (ustr ''1''), PStr (ustr ''[2]'')]),
        \<lparr>stdin = [ustr ''z''],
           stdout = [ArrayHeader (PStr (ustr ''grid'')), ElementPrompt, ElementPrompt, ElementPrompt]\<rparr>)"
proof -
  let ?int = "PDict [(ustr ''type'', PStr (ustr ''integer''))]"
  let ?inner = "[(ustr ''type'', PStr (ustr ''array'')), (ustr ''items'', ?int)]"
  let ?outer = "[(ustr ''type'', PStr (ustr ''array'')), (ustr ''items'', PDict ?inner)]"
  have s: "strip (ustr '' 7 '') = ustr ''7''" "strip (ustr '' 1 '') = ustr ''1''"
    "strip (ustr ''[2]'') = ustr ''[2]''" "strip [] = []"
    by (simp_all add: strip_def isspace_def ustr_def)
  have n: "ustr ''7'' \<noteq> []" "ustr ''1'' \<noteq> []" "ustr ''[2]'' \<noteq> []"
    by (simp_all add: ustr_def)
  have c: "convert_primitive (ustr ''7'') ?int w = (Inr (PInt 7), w)" for w
    by (simp add: convert_primitive_def text_simps number_simps)
  have e: "array_loop ?int [PInt 7] \<lparr>stdin = [[]], stdout = [ElementPrompt]\<rparr>
      = (Inr [PInt 7], \<lparr>stdin = [], stdout = [ElementPrompt, ElementPrompt]\<rparr>)"
    by (simp add: array_loop.simps input_def print_def s)
  have "array_loop ?int [] \<lparr>stdin = [ustr '' 7 '', []], stdout = []\<rparr>
      = (case convert_primitive (strip (ustr '' 7 '')) ?int
                (\<lparr>stdin = [ustr '' 7 '', []], stdout = []\<rparr>
                   \<lparr>stdin := [[]],
                    stdout := stdout \<lparr>stdin = [ustr '' 7 '', []], stdout = []\<rparr> @ [ElementPrompt]\<rparr>) of
           (Inl e, w'') \<Rightarrow> (Inl e, w'')
         | (Inr v, w'') \<Rightarrow> array_loop ?int ([] @ [v]) w'')"
    by (rule array_elements_are_primitives [THEN conjunct1, rule_format]) (simp add: s n)
  then have x: "array_loop ?int [] \<lparr>stdin = [ustr '' 7 '', []], stdout = []\<rparr>
      = (Inr [PInt 7], \<lparr>stdin = [], stdout = [ElementPrompt, ElementPrompt]\<rparr>)"
    by (simp add: s c e)
  have y: "prompt_for_value (PStr (ustr ''grid'')) (PDict ?outer)
        \<lparr>stdin = [ustr '' 1 '', ustr ''[2]''] @ [] # [ustr ''z''], stdout = []\<rparr>
      = (Inr (PList (map (\<lambda>l. PStr (strip l)) [ustr '' 1 '', ustr ''[2]''])),
         \<lparr>stdin = [ustr ''z''],
            stdout = [] @ ArrayHeader (PStr (ustr ''grid''))
                       # replicate (Suc (length [ustr '' 1 '', ustr ''[2]''])) ElementPrompt\<rparr>)"
    by (rule array_elements_are_primitives [where i = ?inner, THEN conjunct2, rule_format])
       (simp add: text_simps strip_def isspace_def)
  from x y show ?thesis by (simp add: s)
qed

text \<open>
  Claim C5. For every object schema, the mapping that the object builder returns has
  no key outside the declared properties, and when every required name is a declared
  property it has every required name as a key.
\<close>

theorem object_keys:
  assumes "prompt_for_object (PDict d) w = (Inr v, w')"
    and "dict_get_or d (ustr ''properties'') (PDict []) = PDict props"
    and "py_set (dict_get_or d (ustr ''required'') (PList [])) = Inr required"
    and "set required \<subseteq> PStr ` fst ` set props"
  shows "\<exists>res. v = PDict res \<and> fst ` set res \<subseteq> fst ` set props
           \<and> set required \<subseteq> PStr ` fst ` set res"
proof -
  from assms(1-3) have l: "object_loop required props [] w = (Inr v, w')"
    by (simp add: prompt_for_object.simps [of "PDict d" w])
  then obtain res where v: "v = PDict res"
    using object_loop_dict by blast
  from object_loop_keys [OF l [unfolded v]]
  have k: "fst ` set res \<subseteq> fst ` set props"
    and r: "\<forall>k \<in> fst ` set props. PStr k \<in> set required \<longrightarrow> k \<in> fst ` set res"
    by auto
  have "set required \<subseteq> PStr ` fst ` set res"
  proof
    fix x
    assume x: "x \<in> set required"
    with assms(4) obtain k where kp: "k \<in> fst ` set props" and xk: "x = PStr k"
      by blast
    from r kp x xk have "k \<in> fst ` set res" by blast
    with xk show "x \<in> PStr ` fst ` set res" by blast
  qed
  with v k show ?thesis by blast
qed

text \<open>
  The operation \<^verbatim>\<open>v3/supply-order/get\<close>, whose one property is required: the
  operator enters \<open>10\<close>, \<open>20\<close> and an empty line.
\<close>

theorem object_keys_witness:
  "prompt_for_object supply_order_get_schema \<lparr>stdin = [ustr ''10'', ustr ''20'', []], stdout = []\<rparr>
     = (Inr (PDict [(ustr ''order_ids'', PList [PInt 10, PInt 20])]),
        \<lparr>stdin = [],
           stdout = [ArrayHeader (PStr (ustr ''order_ids'')), ElementPrompt, ElementPrompt,
                     ElementPrompt]\<rparr>)
   \<and> (\<exists>res. PDict [(ustr ''order_ids'', PList [PInt 10, PInt 20])] = PDict res
         \<and> fst ` set res \<subseteq> {ustr ''order_ids''}
         \<and> {PStr (ustr ''order_ids'')} \<subseteq> PStr ` fst ` set res)"
proof -
  let ?props = "[(ustr ''order_ids'', PDict
            [(ustr ''type'', PStr (ustr ''array'')),
             (ustr ''items'', PDict [(ustr ''type'', PStr (ustr ''integer''))])])]"
  let ?d = "[(ustr ''type'', PStr (ustr ''object'')),
       (ustr ''properties'', PDict ?props),
       (ustr ''required'', PList [PStr (ustr ''order_ids'')])]"
  have run: "prompt_for_object (PDict ?d) \<lparr>stdin = [ustr ''10'', ustr ''20'', []], stdout = []\<rparr>
     = (Inr (PDict [(ustr ''order_ids'', PList [PInt 10, PInt 20])]),
        \<lparr>stdin = [],
           stdout = [ArrayHeader (PStr (ustr ''order_ids'')), ElementPrompt, ElementPrompt,
                     ElementPrompt]\<rparr>)"
    by (simp add: prompt_for_object.simps prompt_for_value.simps array_loop.simps
        convert_primitive_def fill_choice_def py_set_def input_def print_def text_simps
        number_simps Let_def)
  have p: "dict_get_or ?d (ustr ''properties'') (PDict []) = PDict ?props"
    by (simp add: text_simps)
  have r: "py_set (dict_get_or ?d (ustr ''required'') (PList [])) = Inr [PStr (ustr ''order_ids'')]"
    by (simp add: text_simps py_set_def)
  have s: "set [PStr (ustr ''order_ids'')] \<subseteq> PStr ` fst ` set ?props"
    by simp
  from object_keys [OF run p r s] run show ?thesis
    by (simp add: supply_order_get_schema_def)
qed

text \<open>
  Claim C8. For every object schema and every optional property that the operator
  declines, the mapping returned has no entry for that property. The property stands
  in the declared order between the properties \<open>pre\<close> and \<open>post\<close>; the loop has
  reached it with the console \<open>w1\<close>, and the answer to its question is the line
  read there.
\<close>

theorem declined_property_absent:
  assumes props: "dict_get_or d (ustr ''properties'') (PDict []) = PDict (pre @ (key, ps) # post)"
    and req: "py_set (dict_get_or d (ustr ''required'') (PList [])) = Inr required"
    and uniq: "key \<notin> fst ` set pre" "key \<notin> fst ` set post"
    and optional: "PStr key \<notin> set required"
    and reach: "object_loop required pre [] w = (Inr (PDict r1), w1)"
    and answer: "stdin w1 = line # ls" "lower (strip line) \<notin> set affirmative"
    and finish: "prompt_for_object (PDict d) w = (Inr v, w')"
  shows "\<exists>res. v = PDict res \<and> map_of res key = None"
proof -
  from finish props req
  have "object_loop required (pre @ (key, ps) # post) [] w = (Inr v, w')"
    by (simp add: prompt_for_object.simps [of "PDict d" w])
  with object_loop_append [OF reach, of "(key, ps) # post"]
  have at_key: "object_loop required ((key, ps) # post) r1 w1 = (Inr v, w')"
    by simp
  then obtain psd where ps: "ps = PDict psd"
    by (cases ps) auto
  from at_key [unfolded ps] object_loop_decline [OF optional answer, of psd post r1]
  obtain w2 where tail: "object_loop required post r1 w2 = (Inr v, w')"
    by auto
  then obtain res where v: "v = PDict res"
    using object_loop_dict by blast
  from object_loop_keys [OF reach] have "fst ` set r1 \<subseteq> fst ` set pre"
    by auto
  moreover from object_loop_keys [OF tail [unfolded v]]
  have "fst ` set res \<subseteq> fst ` set r1 \<union> fst ` set post"
    by auto
  ultimately have "key \<notin> fst ` set res"
    using uniq by blast
  then have "map_of res key = None"
    by (simp add: map_of_eq_None_iff)
  with v show ?thesis by blast
qed

text \<open>
  The operation \<^verbatim>\<open>v3/supply-order/list\<close>: the operator takes \<open>limit\<close> and leaves
  it empty, which gives the default 100, declines \<open>offset\<close>, and enters a status.
  The payload has \<open>limit\<close> with its default and no key \<open>offset\<close>.
\<close>

theorem declined_property_absent_witness:
  "prompt_for_object supply_order_list_schema
       \<lparr>stdin = [ustr ''y'', [], ustr ''n'', ustr ''y'', ustr ''awaiting''], stdout = []\<rparr>
     = (Inr (PDict [(ustr ''limit'', PInt 100), (ustr ''status'', PStr (ustr ''awaiting''))]),
        \<lparr>stdin = [],
           stdout = [OptionalPrompt (PStr (ustr ''limit'')), ValuePrompt (PStr (ustr ''limit'')),
                     OptionalPrompt (PStr (ustr ''offset'')),
                     OptionalPrompt (PStr (ustr ''status'')), ValuePrompt (PStr (ustr ''status''))]\<rparr>)
   \<and> object_loop []
        [(ustr ''limit'', PDict [(ustr ''type'', PStr (ustr ''integer'')), (ustr ''default'', PInt 100)])]
        [] \<lparr>stdin = [ustr ''y'', [], ustr ''n'', ustr ''y'', ustr ''awaiting''], stdout = []\<rparr>
     = (Inr (PDict [(ustr ''limit'', PInt 100)]),
        \<lparr>stdin = [ustr ''n'', ustr ''y'', ustr ''awaiting''],
           stdout = [OptionalPrompt (PStr (ustr ''limit'')), ValuePrompt (PStr (ustr ''limit''))]\<rparr>)
   \<and> lower (strip (ustr ''n'')) \<notin> set affirmative
   \<and> (\<exists>res. PDict [(ustr ''limit'', PInt 100), (ustr ''status'', PStr (ustr ''awaiting''))] = PDict res
         \<and> map_of res (ustr ''offset'') = None)"
proof -
  let ?limit = "(ustr ''limit'', PDict [(ustr ''type'', PStr (ustr ''integer'')), (ustr ''default'', PInt 100)])"
  let ?offset = "PDict [(ustr ''type'', PStr (ustr ''integer'')), (ustr ''default'', PInt 0)]"
  let ?status = "(ustr ''status'', PDict [(ustr ''type'', PStr (ustr ''string''))])"
  let ?d = "[(ustr ''type'', PStr (ustr ''object'')),
       (ustr ''properties'', PDict ([?limit] @ (ustr ''offset'', ?offset) # [?status])),
       (ustr ''required'', PList [])]"
  let ?w = "\<lparr>stdin = [ustr ''y'', [], ustr ''n'', ustr ''y'', ustr ''awaiting''], stdout = []\<rparr>"
  let ?w1 = "\<lparr>stdin = [ustr ''n'', ustr ''y'', ustr ''awaiting''],
       stdout = [OptionalPrompt (PStr (ustr ''limit'')), ValuePrompt (PStr (ustr ''limit''))]\<rparr>"
  have run: "prompt_for_object (PDict ?d) ?w
     = (Inr (PDict [(ustr ''limit'', PInt 100), (ustr ''status'', PStr (ustr ''awaiting''))]),
        \<lparr>stdin = [],
           stdout = [OptionalPrompt (PStr (ustr ''limit'')), ValuePrompt (PStr (ustr ''limit'')),
                     OptionalPrompt (PStr (ustr ''offset'')),
                     OptionalPrompt (PStr (ustr ''status'')), ValuePrompt (PStr (ustr ''status''))]\<rparr>)"
    by (simp add: prompt_for_object.simps prompt_for_value.simps
        convert_primitive_def fill_choice_def py_set_def input_def print_def text_simps
        affirmative_def strip_def isspace_def lower_def lower_cp_def Let_def)
  have reach: "object_loop [] [?limit] [] ?w = (Inr (PDict [(ustr ''limit'', PInt 100)]), ?w1)"
    by (simp add: prompt_for_value.simps
        convert_primitive_def fill_choice_def input_def print_def text_simps
        affirmative_def strip_def isspace_def lower_def lower_cp_def Let_def)
  have p: "dict_get_or ?d (ustr ''properties'') (PDict [])
      = PDict ([?limit] @ (ustr ''offset'', ?offset) # [?status])"
    by (simp add: text_simps)
  have r: "py_set (dict_get_or ?d (ustr ''required'') (PList [])) = Inr []"
    by (simp add: text_simps py_set_def)
  have u: "ustr ''offset'' \<notin> fst ` set [?limit]" "ustr ''offset'' \<notin> fst ` set [?status]"
    by (simp_all add: ustr_def)
  have o: "PStr (ustr ''offset'') \<notin> set []"
    by simp
  have a: "stdin ?w1 = ustr ''n'' # [ustr ''y'', ustr ''awaiting'']"
    by simp
  have n: "lower (strip (ustr ''n'')) \<notin> set affirmative"
    by (simp add: affirmative_def strip_def isspace_def lower_def lower_cp_def ustr_def)
  from declined_property_absent [OF p r u o reach a n run] run reach n show ?thesis
    by (simp add: supply_order_list_schema_def)
qed

end
